theory Spec2Isabelle
  imports Complex_Main
begin

section \<open>JavaScript values and promises\<close>

text \<open>
  The dashboard reads every peer response with \<^verbatim>\<open>response.json()\<close> and uses the resulting
  value untyped (\<^verbatim>\<open>any\<close>).  The values below are what that call can produce, plus
  \<^verbatim>\<open>undefined\<close> for a property that is not there.  A \<open>JObj\<close> lists the own properties of
  a parsed object, each key once.  JSON numbers are finite, so they are read as reals.
\<close>

datatype jsval =
    JUndefined
  | JNull
  | JBool bool
  | JNum real
  | JStr string
  | JArr "jsval list"
  | JObj "(string \<times> jsval) list"

text \<open>Truthiness, as \<^verbatim>\<open>||\<close> tests it: undefined, null, false, 0 and the empty string are falsy.\<close>

fun truthy :: "jsval \<Rightarrow> bool" where
  "truthy JUndefined = False"
| "truthy JNull = False"
| "truthy (JBool b) = b"
| "truthy (JNum r) = (r \<noteq> 0)"
| "truthy (JStr s) = (s \<noteq> [])"
| "truthy (JArr xs) = True"
| "truthy (JObj kvs) = True"

definition js_or :: "jsval \<Rightarrow> jsval \<Rightarrow> jsval" where
  "js_or a b = (if truthy a then a else b)"

text \<open>
  What can be thrown inside the \<^verbatim>\<open>try\<close> blocks: a TypeError (by \<^verbatim>\<open>fetch\<close> on a network
  failure, and by a property access on null) and a SyntaxError (by \<^verbatim>\<open>json()\<close>).
\<close>

datatype js_error = TypeError | SyntaxError

text \<open>
  Property access \<^verbatim>\<open>data.k\<close>.  Reading a property of null or undefined throws a TypeError;
  on an object it yields the property or undefined; on a string, number, boolean or array
  it yields undefined for every property name read here (\<^verbatim>\<open>agent_id\<close>, \<^verbatim>\<open>agent_name\<close>,
  \<^verbatim>\<open>domain\<close>, \<^verbatim>\<open>timestamp\<close>, \<^verbatim>\<open>exchanges\<close>, \<^verbatim>\<open>result\<close>, \<^verbatim>\<open>tasks\<close>, \<^verbatim>\<open>status\<close>, \<^verbatim>\<open>state\<close>),
  none of which is a built-in property of those values.
\<close>

fun own_prop :: "jsval \<Rightarrow> string \<Rightarrow> jsval" where
  "own_prop (JObj kvs) k = (case map_of kvs k of None \<Rightarrow> JUndefined | Some v \<Rightarrow> v)"
| "own_prop v k = JUndefined"

definition nullish :: "jsval \<Rightarrow> bool" where
  "nullish v = (v = JUndefined \<or> v = JNull)"

definition get_prop :: "jsval \<Rightarrow> string \<Rightarrow> js_error + jsval" where
  "get_prop v k = (if nullish v then Inl TypeError else Inr (own_prop v k))"

text \<open>Optional chaining \<^verbatim>\<open>v?.k\<close>: undefined when \<open>v\<close> is null or undefined, never a throw.\<close>

definition get_prop_opt :: "jsval \<Rightarrow> string \<Rightarrow> jsval" where
  "get_prop_opt v k = (if nullish v then JUndefined else own_prop v k)"

text \<open>
  A promise is pending for ever, rejected with an error, or resolved with a value.  An
  \<^verbatim>\<open>await\<close> of a pending promise never continues, so the awaiting function stays pending.
\<close>

datatype 'a promise = Pending | Rejected js_error | Resolved 'a

text \<open>
  \<^verbatim>\<open>Promise.all\<close>: rejected as soon as one input is rejected, otherwise pending while one
  input is pending, otherwise resolved with the values in the order of the inputs.
\<close>

fun promise_all :: "'a promise list \<Rightarrow> 'a list promise" where
  "promise_all [] = Resolved []"
| "promise_all (p # ps) =
     (case p of
        Rejected e \<Rightarrow> Rejected e
      | Pending \<Rightarrow> (case promise_all ps of Rejected e \<Rightarrow> Rejected e | _ \<Rightarrow> Pending)
      | Resolved v \<Rightarrow>
          (case promise_all ps of
             Rejected e \<Rightarrow> Rejected e
           | Pending \<Rightarrow> Pending
           | Resolved vs \<Rightarrow> Resolved (v # vs)))"

text \<open>The three-element \<^verbatim>\<open>Promise.all([a, b, c])\<close> of \<^verbatim>\<open>refreshAll\<close>, whose inputs differ in type.\<close>

definition promise_all3 :: "'a promise \<Rightarrow> 'b promise \<Rightarrow> 'c promise \<Rightarrow> ('a \<times> 'b \<times> 'c) promise" where
  "promise_all3 a b c =
     (case (a, b, c) of
        (Rejected e, _, _) \<Rightarrow> Rejected e
      | (_, Rejected e, _) \<Rightarrow> Rejected e
      | (_, _, Rejected e) \<Rightarrow> Rejected e
      | (Resolved x, Resolved y, Resolved z) \<Rightarrow> Resolved (x, y, z)
      | _ \<Rightarrow> Pending)"

section \<open>The network\<close>

text \<open>
  What one \<^verbatim>\<open>fetch\<close> can do: never settle, reject (connection refused, DNS, CORS), or resolve
  with a response whose \<^verbatim>\<open>ok\<close> flag is given and whose \<^verbatim>\<open>json()\<close> never settles, rejects
  (the body is not JSON) or resolves with the parsed value.  The source sets no timeout on
  any request.
\<close>

datatype body = BodyHangs | Unparseable | Parsed jsval

datatype fetch_result = Hangs | NetworkError | Response bool body

text \<open>
  The three requests of the dashboard, by port.  A round makes each request once for each
  descriptor, and the descriptors of the registry have different ports (the initial ones
  do, and \<^verbatim>\<open>addAgent\<close> and \<^verbatim>\<open>removeAgent\<close> keep it so), so the network of a round is a
  function of the request.
\<close>

datatype request = Health int | History int | TasksList

type_synonym network = "request \<Rightarrow> fetch_result"

section \<open>Orchestrator.tsx: data\<close>

datatype conn = online | offline

record AgentConfig =
  port :: int
  fallbackId :: string
  fallbackName :: string
  fallbackDomain :: string

text \<open>
  \<^verbatim>\<open>interface ExchangeLog\<close>, at its declared type: this is how the network graph reads the
  records.  An absent \<^verbatim>\<open>receiver_agent_id\<close> is \<open>None\<close>.
\<close>

record ExchangeLog =
  request_id :: string
  sender_agent_id :: string
  receiver_agent_id :: "string option"
  domain :: string
  query :: string
  confidence :: real
  timestamp :: string

text \<open>
  \<^verbatim>\<open>interface AgentStatus\<close>.  TypeScript declares the identity fields as strings, but
  \<^verbatim>\<open>fetchAgentStatus\<close> stores whatever the peer sent, unchecked; the record is therefore
  parametric in the type of those fields: \<open>jsval\<close> in the orchestrator, \<open>string\<close> where the
  network graph takes them at their declared type.
\<close>

record 'v AgentStatus =
  agent_id :: 'v
  name :: 'v
  domain :: 'v
  status :: conn
  port :: int
  timestamp :: 'v

definition DEFAULT_AGENT_CONFIGS :: "AgentConfig list" where
  "DEFAULT_AGENT_CONFIGS =
     [\<lparr>AgentConfig.port = 8000, fallbackId = ''dkmes-alpha'', fallbackName = ''DKMES Alpha'',
        fallbackDomain = ''knowledge-management''\<rparr>,
      \<lparr>AgentConfig.port = 8001, fallbackId = ''agent-beta-aiml'',
        fallbackName = ''AI/ML Research Agent'', fallbackDomain = ''artificial-intelligence''\<rparr>,
      \<lparr>AgentConfig.port = 8002, fallbackId = ''agent-gamma-analytics'',
        fallbackName = ''CVDT Chatbot Agent'', fallbackDomain = ''data-analytics''\<rparr>]"

text \<open>The component's state (the \<^verbatim>\<open>useState\<close> cells of \<^verbatim>\<open>Orchestrator\<close>).\<close>

record OrchestratorState =
  agentConfigs :: "AgentConfig list"
  agents :: "jsval AgentStatus list"
  exchangesByPort :: "int \<rightharpoonup> jsval"
  activeTasks :: jsval
  selectedAgent :: "jsval AgentStatus option"
  loading :: bool
  autoRefresh :: bool
  showAddAgent :: bool
  newAgentPort :: string

definition initialState :: OrchestratorState where
  "initialState =
     \<lparr>agentConfigs = DEFAULT_AGENT_CONFIGS, agents = [], exchangesByPort = Map.empty,
      activeTasks = JArr [], selectedAgent = None, loading = False, autoRefresh = True,
      showAddAgent = False, newAgentPort = ''''\<rparr>"

section \<open>Orchestrator.tsx: the three fetch functions\<close>

text \<open>The object built on a successful probe (lines 64 to 71); a throw leaves the \<^verbatim>\<open>try\<close>.\<close>

definition online_status :: "AgentConfig \<Rightarrow> jsval \<Rightarrow> js_error + jsval AgentStatus" where
  "online_status config data =
     (case get_prop data ''agent_id'' of Inl e \<Rightarrow> Inl e | Inr aid \<Rightarrow>
      case get_prop data ''agent_name'' of Inl e \<Rightarrow> Inl e | Inr nm \<Rightarrow>
      case get_prop data ''domain'' of Inl e \<Rightarrow> Inl e | Inr dm \<Rightarrow>
      case get_prop data ''timestamp'' of Inl e \<Rightarrow> Inl e | Inr ts \<Rightarrow>
        Inr \<lparr>agent_id = js_or aid (JStr (fallbackId config)),
             name = js_or nm (JStr (fallbackName config)),
             domain = js_or dm (JStr (fallbackDomain config)),
             status = online,
             port = AgentConfig.port config,
             timestamp = ts\<rparr>)"

text \<open>The object returned after the \<^verbatim>\<open>try\<close> (lines 76 to 83).\<close>

definition offline_status :: "AgentConfig \<Rightarrow> jsval AgentStatus" where
  "offline_status config =
     \<lparr>agent_id = JStr (fallbackId config),
      name = JStr (fallbackName config),
      domain = JStr (fallbackDomain config),
      status = offline,
      port = AgentConfig.port config,
      timestamp = JStr ''''\<rparr>"

text \<open>
  \<^verbatim>\<open>fetchAgentStatus\<close>: every throw inside the \<^verbatim>\<open>try\<close> is caught by the empty \<^verbatim>\<open>catch\<close>, and
  control then reaches the offline object, as it does when the response is not ok.
\<close>

definition fetchAgentStatus :: "network \<Rightarrow> AgentConfig \<Rightarrow> jsval AgentStatus promise" where
  "fetchAgentStatus net config =
     (case net (Health (AgentConfig.port config)) of
        Hangs \<Rightarrow> Pending
      | NetworkError \<Rightarrow> Resolved (offline_status config)
      | Response ok b \<Rightarrow>
          if ok then
            (case b of
               BodyHangs \<Rightarrow> Pending
             | Unparseable \<Rightarrow> Resolved (offline_status config)
             | Parsed data \<Rightarrow>
                 (case online_status config data of
                    Inl e \<Rightarrow> Resolved (offline_status config)
                  | Inr s \<Rightarrow> Resolved s))
          else Resolved (offline_status config))"

text \<open>\<^verbatim>\<open>fetchExchanges\<close>: the result pairs the port with \<^verbatim>\<open>data.exchanges || []\<close>.\<close>

definition fetchExchanges :: "network \<Rightarrow> int \<Rightarrow> (int \<times> jsval) promise" where
  "fetchExchanges net p =
     (case net (History p) of
        Hangs \<Rightarrow> Pending
      | NetworkError \<Rightarrow> Resolved (p, JArr [])
      | Response ok b \<Rightarrow>
          if ok then
            (case b of
               BodyHangs \<Rightarrow> Pending
             | Unparseable \<Rightarrow> Resolved (p, JArr [])
             | Parsed data \<Rightarrow>
                 (case get_prop data ''exchanges'' of
                    Inl e \<Rightarrow> Resolved (p, JArr [])
                  | Inr exs \<Rightarrow> Resolved (p, js_or exs (JArr []))))
          else Resolved (p, JArr []))"

text \<open>\<^verbatim>\<open>fetchTasks\<close>: one JSON-RPC call to port 8000; the result is \<^verbatim>\<open>data.result?.tasks || []\<close>.\<close>

definition fetchTasks :: "network \<Rightarrow> jsval promise" where
  "fetchTasks net =
     (case net TasksList of
        Hangs \<Rightarrow> Pending
      | NetworkError \<Rightarrow> Resolved (JArr [])
      | Response ok b \<Rightarrow>
          if ok then
            (case b of
               BodyHangs \<Rightarrow> Pending
             | Unparseable \<Rightarrow> Resolved (JArr [])
             | Parsed data \<Rightarrow>
                 (case get_prop data ''result'' of
                    Inl e \<Rightarrow> Resolved (JArr [])
                  | Inr res \<Rightarrow> Resolved (js_or (get_prop_opt res ''tasks'') (JArr []))))
          else Resolved (JArr []))"

section \<open>Orchestrator.tsx: one aggregation round\<close>

text \<open>Lines 126 to 133: the fan-out and the join.\<close>

definition fetchRound ::
  "network \<Rightarrow> AgentConfig list \<Rightarrow> (jsval AgentStatus list \<times> (int \<times> jsval) list \<times> jsval) promise" where
  "fetchRound net configs =
     (let agentPromises = map (\<lambda>config. fetchAgentStatus net config) configs;
          exchangePromises = map (\<lambda>config. fetchExchanges net (AgentConfig.port config)) configs
      in promise_all3 (promise_all agentPromises) (promise_all exchangePromises) (fetchTasks net))"

text \<open>Lines 140 to 143: \<^verbatim>\<open>forEach\<close> over the exchange results, a later entry for a port replacing an earlier one.\<close>

definition storeExchanges :: "(int \<times> jsval) list \<Rightarrow> (int \<rightharpoonup> jsval)" where
  "storeExchanges exchangeResults = foldl (\<lambda>m res. m(fst res \<mapsto> snd res)) Map.empty exchangeResults"

text \<open>Lines 135 to 148: the state updates once the join has resolved.\<close>

definition publish ::
  "jsval AgentStatus list \<times> (int \<times> jsval) list \<times> jsval \<Rightarrow> OrchestratorState \<Rightarrow> OrchestratorState" where
  "publish r st =
     (case r of (agentResults, exchangeResults, tasks) \<Rightarrow>
        st\<lparr>agents := agentResults,
           exchangesByPort := storeExchanges exchangeResults,
           activeTasks := tasks,
           loading := False\<rparr>)"

text \<open>
  \<^verbatim>\<open>refreshAll\<close>, run to its end with no other event in between: the state a resolved round
  leaves.  While the join is pending the state is the one after \<^verbatim>\<open>setLoading(true)\<close>.
\<close>

definition refreshAll :: "network \<Rightarrow> OrchestratorState \<Rightarrow> OrchestratorState promise" where
  "refreshAll net st =
     (case fetchRound net (agentConfigs st) of
        Pending \<Rightarrow> Pending
      | Rejected e \<Rightarrow> Rejected e
      | Resolved r \<Rightarrow> Resolved (publish r (st\<lparr>loading := True\<rparr>)))"

section \<open>Orchestrator.tsx: the peer registry\<close>

text \<open>
  \<^verbatim>\<open>addAgent\<close> reads the port with the built-in \<^verbatim>\<open>parseInt\<close> and names the new descriptor
  with the number's string form; both built-ins are parameters here (\<open>None\<close> is NaN, which
  is falsy, as is 0; a numeral so long that \<^verbatim>\<open>parseInt\<close> gives Infinity is left out).  The function has no \<^verbatim>\<open>return\<close> and no \<^verbatim>\<open>throw\<close>: its value is
  undefined on every path, and its effect is the state it leaves.
\<close>

definition addAgent ::
  "(string \<Rightarrow> int option) \<Rightarrow> (int \<Rightarrow> string) \<Rightarrow> OrchestratorState \<Rightarrow> jsval \<times> OrchestratorState" where
  "addAgent parseInt toString st =
     (case parseInt (newAgentPort st) of
        None \<Rightarrow> (JUndefined, st)
      | Some p \<Rightarrow>
          if p \<noteq> 0 \<and> \<not> list_ex (\<lambda>c. AgentConfig.port c = p) (agentConfigs st) then
            (JUndefined,
             st\<lparr>agentConfigs := agentConfigs st @
                    [\<lparr>AgentConfig.port = p,
                      fallbackId = ''agent-'' @ toString p,
                      fallbackName = ''Agent :'' @ toString p,
                      fallbackDomain = ''unknown''\<rparr>],
                newAgentPort := [],
                showAddAgent := False\<rparr>)
          else (JUndefined, st))"

definition removeAgent :: "int \<Rightarrow> OrchestratorState \<Rightarrow> OrchestratorState" where
  "removeAgent p st = st\<lparr>agentConfigs := filter (\<lambda>c. AgentConfig.port c \<noteq> p) (agentConfigs st)\<rparr>"

text \<open>
  The two built-ins on ASCII input, used where a theorem is applied to concrete data:
  \<^verbatim>\<open>parseInt\<close> skips leading white space, reads a sign and a \<^verbatim>\<open>0x\<close> prefix, and takes the
  longest run of digits of the radix (NaN when there is none); a number's string form is
  its decimal numeral.  Both are exact for integers of magnitude below \<open>2 ^ 53\<close>.
\<close>

definition is_space :: "char \<Rightarrow> bool" where
  "is_space c = (of_char c \<in> {9, 10, 11, 12, 13, 32 :: nat})"

definition digit_value :: "char \<Rightarrow> nat option" where
  "digit_value c =
     (let n = (of_char c :: nat) in
      if 48 \<le> n \<and> n \<le> 57 then Some (n - 48)
      else if 97 \<le> n \<and> n \<le> 122 then Some (n - 87)
      else if 65 \<le> n \<and> n \<le> 90 then Some (n - 55)
      else None)"

definition is_digit :: "nat \<Rightarrow> char \<Rightarrow> bool" where
  "is_digit radix c = (case digit_value c of None \<Rightarrow> False | Some d \<Rightarrow> d < radix)"

definition js_parseInt :: "string \<Rightarrow> int option" where
  "js_parseInt str =
     (let s1 = dropWhile is_space str;
          negative = (take 1 s1 = ''-'');
          s2 = (if take 1 s1 = ''-'' \<or> take 1 s1 = ''+'' then drop 1 s1 else s1);
          hex = (take 2 s2 = ''0x'' \<or> take 2 s2 = ''0X'');
          radix = (if hex then 16 else 10);
          s3 = (if hex then drop 2 s2 else s2);
          z = takeWhile (is_digit radix) s3;
          m = foldl (\<lambda>acc c. acc * radix + the (digit_value c)) 0 z
      in if z = [] then None
         else Some (if negative then - int m else int m))"

fun digits10 :: "nat \<Rightarrow> string" where
  "digits10 n =
     (if n < 10 then [''0123456789'' ! n]
      else digits10 (n div 10) @ [''0123456789'' ! (n mod 10)])"

declare digits10.simps [simp del]

definition js_toString :: "int \<Rightarrow> string" where
  "js_toString i = (if i < 0 then CHR ''-'' # digits10 (nat (- i)) else digits10 (nat i))"

section \<open>Orchestrator.tsx: task states\<close>

definition getTaskStateColor :: "string \<Rightarrow> string" where
  "getTaskStateColor state =
     (if state = ''TASK_STATE_COMPLETED'' then ''#10b981''
      else if state = ''TASK_STATE_FAILED'' then ''#ef4444''
      else if state = ''TASK_STATE_WORKING'' then ''#3b82f6''
      else if state = ''TASK_STATE_SUBMITTED'' then ''#f59e0b''
      else ''#6b7280'')"

datatype icon = CheckCircle | AlertCircle | RefreshCw | Clock

definition getTaskStateIcon :: "string \<Rightarrow> icon" where
  "getTaskStateIcon state =
     (if state = ''TASK_STATE_COMPLETED'' then CheckCircle
      else if state = ''TASK_STATE_FAILED'' then AlertCircle
      else if state = ''TASK_STATE_WORKING'' then RefreshCw
      else Clock)"

text \<open>
  \<^verbatim>\<open>String.prototype.replace\<close> with a string pattern: the first occurrence is replaced.
\<close>

fun replace_first :: "string \<Rightarrow> string \<Rightarrow> string \<Rightarrow> string" where
  "replace_first pat rep [] = (if pat = [] then rep else [])"
| "replace_first pat rep (c # cs) =
     (if take (length pat) (c # cs) = pat then rep @ drop (length pat) (c # cs)
      else c # replace_first pat rep cs)"

text \<open>
  The text of the state badge (line 457), \<^verbatim>\<open>task.status.state.replace('TASK_STATE_', '')\<close>,
  for a task as the registry sent it.  Reading a property of null or undefined throws,
  and a state that is not a string has no \<^verbatim>\<open>replace\<close> method, so calling it throws a
  TypeError.  This is one expression of the row the task list renders for a task: a throw
  here is a throw of the render, while a value here is the value of this expression only
  (the row has other children, the input text of line 437 among them).
\<close>

definition stateLabelText :: "jsval \<Rightarrow> js_error + string" where
  "stateLabelText task =
     (case get_prop task ''status'' of Inl e \<Rightarrow> Inl e | Inr st \<Rightarrow>
      case get_prop st ''state'' of Inl e \<Rightarrow> Inl e | Inr state \<Rightarrow>
        (case state of
           JStr label \<Rightarrow> Inr (replace_first ''TASK_STATE_'' [] label)
         | _ \<Rightarrow> Inl TypeError))"

text \<open>
  The classification the specification describes (section 4.4): a fixed table from the
  external labels to five internal states, with \<open>Unknown\<close> for every other label; and the
  colour and icon each internal state is shown with.  The source has no such enumeration;
  the refinement theorem below compares its two \<^verbatim>\<open>switch\<close> statements with this table.
\<close>

datatype task_state = Submitted | Working | Completed | Failed | Unknown

definition spec_task_state :: "string \<Rightarrow> task_state" where
  "spec_task_state label =
     (if label = ''TASK_STATE_SUBMITTED'' then Submitted
      else if label = ''TASK_STATE_WORKING'' then Working
      else if label = ''TASK_STATE_COMPLETED'' then Completed
      else if label = ''TASK_STATE_FAILED'' then Failed
      else Unknown)"

fun spec_state_color :: "task_state \<Rightarrow> string" where
  "spec_state_color Submitted = ''#f59e0b''"
| "spec_state_color Working = ''#3b82f6''"
| "spec_state_color Completed = ''#10b981''"
| "spec_state_color Failed = ''#ef4444''"
| "spec_state_color Unknown = ''#6b7280''"

fun spec_state_icon :: "task_state \<Rightarrow> icon" where
  "spec_state_icon Submitted = Clock"
| "spec_state_icon Working = RefreshCw"
| "spec_state_icon Completed = CheckCircle"
| "spec_state_icon Failed = AlertCircle"
| "spec_state_icon Unknown = Clock"

section \<open>AgentNetworkGraph: the mesh of online agents\<close>

text \<open>The fields of a React Flow edge that the component sets.\<close>

record Edge =
  edge_id :: string
  source :: string
  target :: string
  edge_type :: string
  animated :: bool
  stroke :: string
  strokeWidth :: nat
  markerColor :: string

text \<open>
  \<^verbatim>\<open>hasExchange\<close>: \<^verbatim>\<open>exchanges.some(...)\<close>.  A record with no \<^verbatim>\<open>receiver_agent_id\<close> has it
  undefined, which is strictly equal to no string.
\<close>

definition hasExchange :: "ExchangeLog list \<Rightarrow> string \<Rightarrow> string \<Rightarrow> bool" where
  "hasExchange exchanges sourceId targetId =
     list_ex (\<lambda>ex.
        (sender_agent_id ex = sourceId \<and> receiver_agent_id ex = Some targetId) \<or>
        (sender_agent_id ex = targetId \<and> receiver_agent_id ex = Some sourceId)) exchanges"

text \<open>The object pushed in the inner loop.\<close>

definition meshEdge :: "ExchangeLog list \<Rightarrow> string \<Rightarrow> string \<Rightarrow> Edge" where
  "meshEdge exchanges sourceId targetId =
     \<lparr>edge_id = sourceId @ ''-'' @ targetId,
      source = sourceId,
      target = targetId,
      edge_type = ''smoothstep'',
      animated = hasExchange exchanges sourceId targetId,
      stroke = (if hasExchange exchanges sourceId targetId then ''#10b981''
                else ''var(--border-color, #333)''),
      strokeWidth = (if hasExchange exchanges sourceId targetId then 2 else 1),
      markerColor = (if hasExchange exchanges sourceId targetId then ''#10b981''
                     else ''var(--border-color, #333)'')\<rparr>"

text \<open>
  \<^verbatim>\<open>initialEdges\<close> (lines 173 to 208): the two nested index loops over the online agents,
  \<open>i\<close> from 0 and \<open>j\<close> from \<open>i + 1\<close>, pushing one edge each.
\<close>

definition initialEdges :: "string AgentStatus list \<Rightarrow> ExchangeLog list \<Rightarrow> Edge list" where
  "initialEdges agts exchanges =
     (let onlineAgents = filter (\<lambda>a. status a = online) agts in
      concat (map (\<lambda>i.
        map (\<lambda>j. meshEdge exchanges (agent_id (onlineAgents ! i)) (agent_id (onlineAgents ! j)))
          [i + 1 ..< length onlineAgents])
        [0 ..< length onlineAgents]))"

text \<open>The effect that recomputes the edges when agents or exchanges change (lines 229 to 262).\<close>

definition newEdges :: "string AgentStatus list \<Rightarrow> ExchangeLog list \<Rightarrow> Edge list" where
  "newEdges agts exchanges =
     (let onlineAgents = filter (\<lambda>a. status a = online) agts in
      concat (map (\<lambda>i.
        map (\<lambda>j. meshEdge exchanges (agent_id (onlineAgents ! i)) (agent_id (onlineAgents ! j)))
          [i + 1 ..< length onlineAgents])
        [0 ..< length onlineAgents]))"

text \<open>The same mesh by recursion on the list: each agent paired with every later one.\<close>

fun later_pairs :: "'a list \<Rightarrow> ('a \<times> 'a) list" where
  "later_pairs [] = []"
| "later_pairs (x # xs) = map (Pair x) xs @ later_pairs xs"

definition edge_ends :: "Edge \<Rightarrow> string \<times> string" where
  "edge_ends e = (source e, target e)"

section \<open>Orchestrator.tsx: when rounds start\<close>

text \<open>
  The events that start or end a round, and the part of the state they touch.
  \<^item> The effect (lines 169 to 176) runs after mounting and whenever \<^verbatim>\<open>autoRefresh\<close> or
    \<^verbatim>\<open>agentConfigs\<close> changed: the previous interval is cleared, \<^verbatim>\<open>refreshAll()\<close> is called,
    and an interval of 3000 ms calling \<^verbatim>\<open>refreshAll\<close> is set when \<^verbatim>\<open>autoRefresh\<close> holds.
  \<^item> The Refresh button calls \<^verbatim>\<open>refreshAll\<close> and is \<^verbatim>\<open>disabled={loading}\<close>.
  \<^item> \<^verbatim>\<open>refreshAll\<close> itself tests nothing: it sets \<^verbatim>\<open>loading\<close>, awaits the join and clears
    \<^verbatim>\<open>loading\<close>.
  An event that cannot occur in a state has no successor (\<open>None\<close>).
\<close>

datatype event = EffectRuns bool | IntervalFires | RefreshClicked | RoundCompletes

record Rounds =
  loadingFlag :: bool
  intervalSet :: bool
  inFlight :: nat

definition startRound :: "Rounds \<Rightarrow> Rounds" where
  "startRound s = s\<lparr>loadingFlag := True, inFlight := inFlight s + 1\<rparr>"

fun step :: "Rounds \<Rightarrow> event \<Rightarrow> Rounds option" where
  "step s (EffectRuns auto) = Some (startRound (s\<lparr>intervalSet := auto\<rparr>))"
| "step s IntervalFires = (if intervalSet s then Some (startRound s) else None)"
| "step s RefreshClicked = (if loadingFlag s then None else Some (startRound s))"
| "step s RoundCompletes =
     (if 0 < inFlight s then Some (s\<lparr>loadingFlag := False, inFlight := inFlight s - 1\<rparr>) else None)"

fun run :: "Rounds \<Rightarrow> event list \<Rightarrow> Rounds option" where
  "run s [] = Some s"
| "run s (ev # evs) = (case step s ev of None \<Rightarrow> None | Some s' \<Rightarrow> run s' evs)"

definition unmounted :: Rounds where
  "unmounted = \<lparr>loadingFlag = False, intervalSet = False, inFlight = 0\<rparr>"

definition manual :: "event \<Rightarrow> bool" where
  "manual ev = (ev = RefreshClicked \<or> ev = RoundCompletes)"

section \<open>Notions used in the statements\<close>

text \<open>
  The failures of a request: it rejects, the response is not ok, its body is not JSON,
  or its body is null (so that reading a field of it throws).
\<close>

definition fetch_failed :: "fetch_result \<Rightarrow> bool" where
  "fetch_failed r =
     (case r of
        Hangs \<Rightarrow> False
      | NetworkError \<Rightarrow> True
      | Response ok b \<Rightarrow>
          \<not> ok \<or> (case b of BodyHangs \<Rightarrow> False | Unparseable \<Rightarrow> True | Parsed v \<Rightarrow> nullish v))"

text \<open>
  A request settles: the fetch resolves or rejects, and so does the reading of the body
  when the response is ok (the body of a response that is not ok is never read).
\<close>

definition settles :: "fetch_result \<Rightarrow> bool" where
  "settles r =
     (case r of
        Hangs \<Rightarrow> False
      | NetworkError \<Rightarrow> True
      | Response ok b \<Rightarrow> \<not> ok \<or> b \<noteq> BodyHangs)"

definition round_settles :: "network \<Rightarrow> AgentConfig list \<Rightarrow> bool" where
  "round_settles net configs =
     (list_all (\<lambda>config. settles (net (Health (AgentConfig.port config))) \<and>
                          settles (net (History (AgentConfig.port config)))) configs \<and>
      settles (net TasksList))"

text \<open>A response field that is absent or the empty string.\<close>

definition absent_or_empty :: "jsval \<Rightarrow> bool" where
  "absent_or_empty v = (v = JUndefined \<or> v = JStr [])"

text \<open>What a round stored for a port, when the round resolved.\<close>

definition stored_exchanges :: "OrchestratorState promise \<Rightarrow> int \<Rightarrow> jsval option" where
  "stored_exchanges r p = (case r of Resolved st' \<Rightarrow> exchangesByPort st' p | _ \<Rightarrow> None)"

text \<open>The agents a round published, when the round resolved.\<close>

definition published_agents :: "OrchestratorState promise \<Rightarrow> jsval AgentStatus list" where
  "published_agents r = (case r of Resolved st' \<Rightarrow> agents st' | _ \<Rightarrow> [])"

text \<open>The identifiers of the online agents, in the order of the list.\<close>

definition online_ids :: "string AgentStatus list \<Rightarrow> string list" where
  "online_ids agts = map agent_id (filter (\<lambda>a. status a = online) agts)"

text \<open>An edge joins two identifiers, in one direction or the other.\<close>

definition joins :: "Edge \<Rightarrow> string \<Rightarrow> string \<Rightarrow> bool" where
  "joins e a b = (source e = a \<and> target e = b \<or> source e = b \<and> target e = a)"

text \<open>At most one round is in flight, and \<^verbatim>\<open>loading\<close> is set exactly while one is.\<close>

definition one_round :: "Rounds \<Rightarrow> bool" where
  "one_round s = (inFlight s \<le> 1 \<and> (loadingFlag s \<longleftrightarrow> inFlight s = 1))"

section \<open>Concrete data\<close>

text \<open>
  One network: port 8000 answers its health probe without a domain and with an empty
  name, and returns one exchange record whose confidence is 1.5; port 8001 refuses the
  connection; every other port answers with an error page; the task registry answers
  with an error status.
\<close>

definition demo_record :: jsval where
  "demo_record =
     JObj [(''request_id'', JStr ''req-1''),
           (''sender_agent_id'', JStr ''agent-beta-aiml''),
           (''receiver_agent_id'', JStr ''alpha-live''),
           (''domain'', JStr ''artificial-intelligence''),
           (''query'', JStr ''What is RAG?''),
           (''confidence'', JNum (3 / 2)),
           (''timestamp'', JStr ''2025-01-01T00:00:00Z'')]"

definition demo_health :: jsval where
  "demo_health =
     JObj [(''agent_id'', JStr ''alpha-live''),
           (''agent_name'', JStr ''''),
           (''timestamp'', JStr ''2025-01-01T00:00:00Z'')]"

definition demo_net :: network where
  "demo_net r =
     (case r of
        Health p \<Rightarrow>
          if p = 8000 then Response True (Parsed demo_health)
          else if p = 8001 then NetworkError
          else Response False Unparseable
      | History p \<Rightarrow>
          if p = 8000 then Response True (Parsed (JObj [(''exchanges'', JArr [demo_record])]))
          else if p = 8001 then NetworkError
          else Response True Unparseable
      | TasksList \<Rightarrow> Response False (Parsed JNull))"

text \<open>A task whose state label the dashboard does not know.\<close>

definition demo_task :: jsval where
  "demo_task =
     JObj [(''id'', JStr ''task-1''),
           (''status'',
            JObj [(''state'', JStr ''TASK_STATE_CANCELLED''), (''timestamp'', JNum 1700000000)]),
           (''history'', JArr [])]"

text \<open>
  A task whose state is the number 3 instead of a label, and a network on which the task
  registry returns it.
\<close>

definition numeric_task :: jsval where
  "numeric_task =
     JObj [(''id'', JStr ''task-2''),
           (''status'', JObj [(''state'', JNum 3), (''timestamp'', JNum 1700000000)]),
           (''history'', JArr [])]"

definition tasks_net :: network where
  "tasks_net r =
     (case r of
        TasksList \<Rightarrow>
          Response True
            (Parsed (JObj [(''jsonrpc'', JStr ''2.0''),
                           (''result'', JObj [(''tasks'', JArr [numeric_task])]),
                           (''id'', JNum 1)]))
      | _ \<Rightarrow> NetworkError)"

text \<open>The state after typing 8001, a port already configured, into the Add Agent form.\<close>

definition demo_duplicate :: OrchestratorState where
  "demo_duplicate = initialState\<lparr>showAddAgent := True, newAgentPort := ''8001''\<rparr>"

definition demo_fresh :: OrchestratorState where
  "demo_fresh = initialState\<lparr>showAddAgent := True, newAgentPort := ''8003''\<rparr>"

text \<open>Agents for the network graph, and three online agents two of which report one identifier.\<close>

definition graph_agent :: "string \<Rightarrow> conn \<Rightarrow> int \<Rightarrow> string AgentStatus" where
  "graph_agent i s p =
     \<lparr>agent_id = i, name = i, AgentStatus.domain = ''demo'', status = s, port = p,
      AgentStatus.timestamp = ''2025-01-01T00:00:00Z''\<rparr>"

definition demo_agents :: "string AgentStatus list" where
  "demo_agents =
     [graph_agent ''A'' online 8000, graph_agent ''B'' online 8001, graph_agent ''C'' offline 8002,
      graph_agent ''D'' online 8003]"

definition clash_agents :: "string AgentStatus list" where
  "clash_agents =
     [graph_agent ''dkmes-alpha'' online 8000, graph_agent ''agent-beta-aiml'' online 8001,
      graph_agent ''dkmes-alpha'' online 8002]"

text \<open>
  A network on which that happens: all three initial ports answer their health probe, and
  the agent on port 8002 reports the identifier that the agent on port 8000 reports.
\<close>

definition clash_net :: network where
  "clash_net r =
     (case r of
        Health p \<Rightarrow>
          if p = 8001 then Response True (Parsed (JObj [(''agent_id'', JStr ''agent-beta-aiml'')]))
          else Response True (Parsed (JObj [(''agent_id'', JStr ''dkmes-alpha'')]))
      | History p \<Rightarrow> Response True (Parsed (JObj [(''exchanges'', JArr [])]))
      | TasksList \<Rightarrow> NetworkError)"

definition demo_exchange :: ExchangeLog where
  "demo_exchange =
     \<lparr>request_id = ''req-1'', sender_agent_id = ''B'', receiver_agent_id = Some ''A'',
      ExchangeLog.domain = ''demo'', query = ''What is RAG?'', confidence = 0.82,
      ExchangeLog.timestamp = ''2025-01-01T00:00:00Z''\<rparr>"

section \<open>Promises and the round\<close>

lemma fetchAgentStatus_not_rejected: "fetchAgentStatus net config \<noteq> Rejected e"
  by (simp add: fetchAgentStatus_def split: fetch_result.split body.split sum.split)

lemma fetchExchanges_not_rejected: "fetchExchanges net p \<noteq> Rejected e"
  by (simp add: fetchExchanges_def split: fetch_result.split body.split sum.split)

lemma fetchTasks_not_rejected: "fetchTasks net \<noteq> Rejected e"
  by (simp add: fetchTasks_def split: fetch_result.split body.split sum.split)

lemma fetchAgentStatus_settles:
  "settles (net (Health (AgentConfig.port config))) \<Longrightarrow> \<exists>s. fetchAgentStatus net config = Resolved s"
  by (auto simp: settles_def fetchAgentStatus_def split: fetch_result.splits body.splits sum.splits)

lemma fetchExchanges_settles:
  "settles (net (History p)) \<Longrightarrow> \<exists>x. fetchExchanges net p = Resolved (p, x)"
  by (auto simp: settles_def fetchExchanges_def split: fetch_result.splits body.splits sum.splits)

lemma fetchExchanges_port: "fetchExchanges net p = Resolved r \<Longrightarrow> fst r = p"
  by (auto simp: fetchExchanges_def split: fetch_result.splits body.splits sum.splits if_splits)

lemma fetchTasks_settles:
  "settles (net TasksList) \<Longrightarrow> \<exists>t. fetchTasks net = Resolved t"
  by (auto simp: settles_def fetchTasks_def split: fetch_result.splits body.splits sum.splits)

lemma fetchAgentStatus_port:
  "fetchAgentStatus net config = Resolved a \<Longrightarrow> port a = AgentConfig.port config"
  by (auto simp: fetchAgentStatus_def online_status_def offline_status_def
           split: fetch_result.splits body.splits sum.splits if_splits)

lemma promise_all_Resolved:
  "promise_all ps = Resolved vs \<Longrightarrow> list_all2 (\<lambda>p v. p = Resolved v) ps vs"
  by (induction ps arbitrary: vs) (auto split: promise.splits)

lemma promise_all_Rejected:
  "promise_all ps = Rejected e \<Longrightarrow> Rejected e \<in> set ps"
  by (induction ps) (auto split: promise.splits)

lemma promise_all_resolves:
  "\<forall>p\<in>set ps. \<exists>v. p = Resolved v \<Longrightarrow> \<exists>vs. promise_all ps = Resolved vs"
  by (induction ps) (fastforce split: promise.splits)+

lemma promise_all3_Resolved:
  "promise_all3 a b c = Resolved r \<longleftrightarrow> (\<exists>x y z. a = Resolved x \<and> b = Resolved y \<and> c = Resolved z \<and> r = (x, y, z))"
  by (auto simp: promise_all3_def split: promise.splits)

lemma promise_all3_Rejected:
  "promise_all3 a b c = Rejected e \<Longrightarrow> a = Rejected e \<or> b = Rejected e \<or> c = Rejected e"
  by (auto simp: promise_all3_def split: promise.splits)

lemma fetchRound_not_rejected: "fetchRound net configs \<noteq> Rejected e"
proof
  assume "fetchRound net configs = Rejected e"
  then consider
      "promise_all (map (\<lambda>config. fetchAgentStatus net config) configs) = Rejected e"
    | "promise_all (map (\<lambda>config. fetchExchanges net (AgentConfig.port config)) configs) = Rejected e"
    | "fetchTasks net = Rejected e"
    unfolding fetchRound_def Let_def by (blast dest: promise_all3_Rejected)
  then show False
  proof cases
    case 1
    then show False
      by (auto dest!: promise_all_Rejected simp: fetchAgentStatus_not_rejected[symmetric])
  next
    case 2
    then show False
      by (auto dest!: promise_all_Rejected simp: fetchExchanges_not_rejected[symmetric])
  next
    case 3
    then show False by (simp add: fetchTasks_not_rejected)
  qed
qed

lemma fetchRound_Resolved:
  assumes "fetchRound net configs = Resolved (as, xs, t)"
  shows "list_all2 (\<lambda>config a. fetchAgentStatus net config = Resolved a) configs as"
    and "list_all2 (\<lambda>config x. fetchExchanges net (AgentConfig.port config) = Resolved x) configs xs"
    and "fetchTasks net = Resolved t"
proof -
  from assms have a: "promise_all (map (\<lambda>config. fetchAgentStatus net config) configs) = Resolved as"
    and x: "promise_all (map (\<lambda>config. fetchExchanges net (AgentConfig.port config)) configs) = Resolved xs"
    and t: "fetchTasks net = Resolved t"
    by (simp_all add: fetchRound_def Let_def promise_all3_Resolved)
  from promise_all_Resolved[OF a]
  show "list_all2 (\<lambda>config a. fetchAgentStatus net config = Resolved a) configs as"
    by (simp add: list_all2_map1)
  from promise_all_Resolved[OF x]
  show "list_all2 (\<lambda>config x. fetchExchanges net (AgentConfig.port config) = Resolved x) configs xs"
    by (simp add: list_all2_map1)
  from t show "fetchTasks net = Resolved t" .
qed

lemma fetchRound_resolves:
  assumes "round_settles net configs"
  shows "\<exists>r. fetchRound net configs = Resolved r"
proof -
  from assms have h: "\<And>config. config \<in> set configs \<Longrightarrow>
      settles (net (Health (AgentConfig.port config))) \<and> settles (net (History (AgentConfig.port config)))"
    and t: "settles (net TasksList)"
    by (auto simp: round_settles_def list_all_iff)
  have "\<exists>as. promise_all (map (\<lambda>config. fetchAgentStatus net config) configs) = Resolved as"
    by (rule promise_all_resolves) (auto dest!: h intro: fetchAgentStatus_settles)
  moreover have "\<exists>xs. promise_all (map (\<lambda>config. fetchExchanges net (AgentConfig.port config)) configs) = Resolved xs"
    by (rule promise_all_resolves) (auto dest!: h dest: fetchExchanges_settles)
  moreover from t have "\<exists>t. fetchTasks net = Resolved t"
    by (rule fetchTasks_settles)
  ultimately show ?thesis
    by (auto simp: fetchRound_def Let_def promise_all3_Resolved)
qed

lemma refreshAll_not_rejected: "refreshAll net st \<noteq> Rejected e"
  using fetchRound_not_rejected[of net "agentConfigs st"]
  by (auto simp: refreshAll_def split: promise.splits)

lemma refreshAll_Resolved:
  "refreshAll net st = Resolved st' \<longleftrightarrow>
     (\<exists>r. fetchRound net (agentConfigs st) = Resolved r \<and> st' = publish r (st\<lparr>loading := True\<rparr>))"
  by (auto simp: refreshAll_def split: promise.splits)

lemma refreshAll_resolves:
  "round_settles net (agentConfigs st) \<Longrightarrow> \<exists>st'. refreshAll net st = Resolved st'"
  using fetchRound_resolves[of net "agentConfigs st"] by (auto simp: refreshAll_Resolved)

text \<open>
  C1.  A round never rejects, and it resolves whenever every request it makes settles.
  The list of agents a resolved round publishes has one entry for each configured
  descriptor, in order: the entry is the value \<^verbatim>\<open>fetchAgentStatus\<close> resolved with for that
  descriptor, it carries the descriptor's port, and its status is online or offline.
\<close>

theorem refreshAll_one_status_per_peer:
  "(\<forall>e. refreshAll net st \<noteq> Rejected e) \<and>
   (\<forall>st'. refreshAll net st = Resolved st' \<longrightarrow>
      length (agents st') = length (agentConfigs st) \<and>
      list_all2 (\<lambda>config a. fetchAgentStatus net config = Resolved a \<and>
                   port a = AgentConfig.port config \<and>
                   (status a = online \<or> status a = offline))
        (agentConfigs st) (agents st')) \<and>
   (round_settles net (agentConfigs st) \<longrightarrow> (\<exists>st'. refreshAll net st = Resolved st'))"
proof (intro conjI allI impI)
  fix e show "refreshAll net st \<noteq> Rejected e" by (rule refreshAll_not_rejected)
next
  fix st' assume r: "refreshAll net st = Resolved st'"
  then obtain as xs t where f: "fetchRound net (agentConfigs st) = Resolved (as, xs, t)"
    and st': "st' = publish (as, xs, t) (st\<lparr>loading := True\<rparr>)"
    by (auto simp: refreshAll_Resolved)
  have ag: "agents st' = as" by (simp add: st' publish_def)
  have l: "list_all2 (\<lambda>config a. fetchAgentStatus net config = Resolved a) (agentConfigs st) as"
    by (rule fetchRound_Resolved(1)[OF f])
  then show "length (agents st') = length (agentConfigs st)"
    by (simp add: ag list_all2_lengthD)
  have "status a = online \<or> status a = offline" for a :: "jsval AgentStatus"
    by (cases "status a") simp_all
  with l show "list_all2 (\<lambda>config a. fetchAgentStatus net config = Resolved a \<and>
                   port a = AgentConfig.port config \<and>
                   (status a = online \<or> status a = offline))
        (agentConfigs st) (agents st')"
    unfolding ag by (auto elim!: list_all2_mono simp: fetchAgentStatus_port)
next
  assume "round_settles net (agentConfigs st)"
  then show "\<exists>st'. refreshAll net st = Resolved st'" by (rule refreshAll_resolves)
qed


lemmas demo_defs = demo_net_def demo_health_def demo_record_def DEFAULT_AGENT_CONFIGS_def
  initialState_def

theorem refreshAll_one_status_per_peer_witness:
  "round_settles demo_net (agentConfigs initialState) \<and>
   (\<exists>st'. refreshAll demo_net initialState = Resolved st' \<and>
          length (agents st') = 3 \<and>
          map status (agents st') = [online, offline, offline] \<and>
          map port (agents st') = [8000, 8001, 8002])"
proof -
  have s: "round_settles demo_net (agentConfigs initialState)"
    by (simp add: round_settles_def settles_def demo_defs)
  note T = refreshAll_one_status_per_peer[of demo_net initialState]
  from T s obtain st' where r: "refreshAll demo_net initialState = Resolved st'"
    by blast
  from T r have l: "list_all2 (\<lambda>config a. fetchAgentStatus demo_net config = Resolved a \<and>
                   port a = AgentConfig.port config \<and>
                   (status a = online \<or> status a = offline))
        (agentConfigs initialState) (agents st')"
    by blast
  then obtain a0 a1 a2 where ag: "agents st' = [a0, a1, a2]"
    and a0: "fetchAgentStatus demo_net (DEFAULT_AGENT_CONFIGS ! 0) = Resolved a0"
    and a1: "fetchAgentStatus demo_net (DEFAULT_AGENT_CONFIGS ! 1) = Resolved a1"
    and a2: "fetchAgentStatus demo_net (DEFAULT_AGENT_CONFIGS ! 2) = Resolved a2"
    and p: "port a0 = 8000" "port a1 = 8001" "port a2 = 8002"
    by (auto simp: initialState_def DEFAULT_AGENT_CONFIGS_def list_all2_Cons1)
  from a0 have "status a0 = online"
    by (auto simp: demo_defs fetchAgentStatus_def online_status_def get_prop_def nullish_def)
  moreover from a1 have "status a1 = offline"
    by (auto simp: demo_defs fetchAgentStatus_def offline_status_def)
  moreover from a2 have "status a2 = offline"
    by (auto simp: demo_defs fetchAgentStatus_def offline_status_def)
  ultimately show ?thesis using s r ag p by simp
qed

lemma fetchAgentStatus_offline_iff:
  "fetchAgentStatus net config = Resolved a \<Longrightarrow>
   status a = offline \<longleftrightarrow> fetch_failed (net (Health (AgentConfig.port config)))"
  by (auto simp: fetchAgentStatus_def fetch_failed_def online_status_def offline_status_def
        get_prop_def split: fetch_result.splits body.splits if_splits)

text \<open>
  C2.  Whatever way the health probe fails (the connection fails, the response is not a
  success, the body cannot be parsed or is null), \<^verbatim>\<open>fetchAgentStatus\<close> resolves with a status that is
  offline and carries the descriptor's fallback identity; and in no case at all does its
  promise reject.
\<close>

theorem fetchAgentStatus_failure_is_offline:
  "(\<forall>e. fetchAgentStatus net config \<noteq> Rejected e) \<and>
   (fetch_failed (net (Health (AgentConfig.port config))) \<longrightarrow>
      fetchAgentStatus net config =
        Resolved \<lparr>agent_id = JStr (fallbackId config),
                  name = JStr (fallbackName config),
                  AgentStatus.domain = JStr (fallbackDomain config),
                  status = offline,
                  port = AgentConfig.port config,
                  AgentStatus.timestamp = JStr ''''\<rparr>)"
proof (intro conjI allI impI)
  fix e
  show "fetchAgentStatus net config \<noteq> Rejected e"
    by (rule fetchAgentStatus_not_rejected)
next
  assume "fetch_failed (net (Health (AgentConfig.port config)))"
  then show "fetchAgentStatus net config =
        Resolved \<lparr>agent_id = JStr (fallbackId config),
                  name = JStr (fallbackName config),
                  AgentStatus.domain = JStr (fallbackDomain config),
                  status = offline,
                  port = AgentConfig.port config,
                  AgentStatus.timestamp = JStr ''''\<rparr>"
    by (auto simp: fetch_failed_def fetchAgentStatus_def offline_status_def online_status_def
             get_prop_def split: fetch_result.splits body.splits)
qed

theorem fetchAgentStatus_failure_is_offline_witness:
  "fetch_failed (demo_net (Health 8001)) \<and>
   fetch_failed (demo_net (Health 8002)) \<and>
   fetchAgentStatus demo_net (DEFAULT_AGENT_CONFIGS ! 1) =
     Resolved \<lparr>agent_id = JStr ''agent-beta-aiml'', name = JStr ''AI/ML Research Agent'',
               AgentStatus.domain = JStr ''artificial-intelligence'', status = offline,
               port = 8001, AgentStatus.timestamp = JStr ''''\<rparr> \<and>
   fetchAgentStatus demo_net (DEFAULT_AGENT_CONFIGS ! 2) =
     Resolved \<lparr>agent_id = JStr ''agent-gamma-analytics'', name = JStr ''CVDT Chatbot Agent'',
               AgentStatus.domain = JStr ''data-analytics'', status = offline,
               port = 8002, AgentStatus.timestamp = JStr ''''\<rparr>"
  using fetchAgentStatus_failure_is_offline[of demo_net "DEFAULT_AGENT_CONFIGS ! 1"]
        fetchAgentStatus_failure_is_offline[of demo_net "DEFAULT_AGENT_CONFIGS ! 2"]
  by (simp add: fetch_failed_def demo_net_def DEFAULT_AGENT_CONFIGS_def)

text \<open>
  C10.  On a successful probe the fallback is applied field by field: each of
  \<^verbatim>\<open>agent_id\<close>, \<^verbatim>\<open>name\<close> and \<^verbatim>\<open>domain\<close> of the online status is the response's field when
  that is truthy and the descriptor's fallback otherwise, in particular when the field is
  absent or empty; so one status can mix reported and fallback fields.
\<close>

theorem fetchAgentStatus_fallback_per_field:
  "net (Health (AgentConfig.port config)) = Response True (Parsed data) \<and> \<not> nullish data \<longrightarrow>
     fetchAgentStatus net config =
       Resolved \<lparr>agent_id = js_or (own_prop data ''agent_id'') (JStr (fallbackId config)),
                 name = js_or (own_prop data ''agent_name'') (JStr (fallbackName config)),
                 AgentStatus.domain = js_or (own_prop data ''domain'') (JStr (fallbackDomain config)),
                 status = online,
                 port = AgentConfig.port config,
                 AgentStatus.timestamp = own_prop data ''timestamp''\<rparr> \<and>
     (\<forall>k d. absent_or_empty (own_prop data k) \<longrightarrow> js_or (own_prop data k) d = d) \<and>
     (\<forall>k d. truthy (own_prop data k) \<longrightarrow> js_or (own_prop data k) d = own_prop data k)"
  by (auto simp: fetchAgentStatus_def online_status_def get_prop_def js_or_def absent_or_empty_def)

theorem fetchAgentStatus_fallback_per_field_witness:
  "demo_net (Health 8000) = Response True (Parsed demo_health) \<and> \<not> nullish demo_health \<and>
   own_prop demo_health ''agent_id'' = JStr ''alpha-live'' \<and>
   absent_or_empty (own_prop demo_health ''agent_name'') \<and>
   absent_or_empty (own_prop demo_health ''domain'') \<and>
   fetchAgentStatus demo_net (DEFAULT_AGENT_CONFIGS ! 0) =
     Resolved \<lparr>agent_id = JStr ''alpha-live'', name = JStr ''DKMES Alpha'',
               AgentStatus.domain = JStr ''knowledge-management'', status = online,
               port = 8000, AgentStatus.timestamp = JStr ''2025-01-01T00:00:00Z''\<rparr>"
  using fetchAgentStatus_fallback_per_field[of demo_net "DEFAULT_AGENT_CONFIGS ! 0" demo_health]
  by (simp add: demo_net_def DEFAULT_AGENT_CONFIGS_def demo_health_def nullish_def
                absent_or_empty_def js_or_def)

section \<open>Exchange history and task registry\<close>

lemma foldl_store:
  "\<forall>r\<in>set rs. fst r = p \<longrightarrow> snd r = v \<Longrightarrow>
   foldl (\<lambda>m res. m(fst res \<mapsto> snd res)) m rs p = (if p \<in> fst ` set rs then Some v else m p)"
  by (induction rs arbitrary: m) auto

lemma storeExchanges_lookup:
  "(p, v) \<in> set rs \<Longrightarrow> \<forall>r\<in>set rs. fst r = p \<longrightarrow> snd r = v \<Longrightarrow> storeExchanges rs p = Some v"
  unfolding storeExchanges_def by (subst foldl_store[where v = v]) force+

lemma fetchExchanges_Resolved:
  "fetchExchanges net p = Resolved r \<Longrightarrow> \<exists>v. r = (p, v)"
  by (cases r) (auto dest: fetchExchanges_port)

lemma list_all2_left: "list_all2 P xs ys \<Longrightarrow> x \<in> set xs \<Longrightarrow> \<exists>y\<in>set ys. P x y"
  by (induction rule: list_all2_induct) auto

lemma list_all2_right: "list_all2 P xs ys \<Longrightarrow> y \<in> set ys \<Longrightarrow> \<exists>x\<in>set xs. P x y"
  by (induction rule: list_all2_induct) auto

lemma refreshAll_stores_exchanges:
  assumes r: "refreshAll net st = Resolved st'"
    and c: "config \<in> set (agentConfigs st)"
    and f: "fetchExchanges net (AgentConfig.port config) = Resolved (AgentConfig.port config, v)"
  shows "exchangesByPort st' (AgentConfig.port config) = Some v"
proof -
  from r obtain as xs t where fr: "fetchRound net (agentConfigs st) = Resolved (as, xs, t)"
    and st': "st' = publish (as, xs, t) (st\<lparr>loading := True\<rparr>)"
    by (auto simp: refreshAll_Resolved)
  have l: "list_all2 (\<lambda>config x. fetchExchanges net (AgentConfig.port config) = Resolved x)
             (agentConfigs st) xs"
    by (rule fetchRound_Resolved(2)[OF fr])
  from l c f have m: "(AgentConfig.port config, v) \<in> set xs"
    by (auto dest!: list_all2_left)
  have u: "\<forall>x\<in>set xs. fst x = AgentConfig.port config \<longrightarrow> snd x = v"
  proof (intro ballI impI)
    fix x assume x: "x \<in> set xs" and p: "fst x = AgentConfig.port config"
    from l x obtain config' :: AgentConfig
      where "fetchExchanges net (AgentConfig.port config') = Resolved x"
      by (auto dest!: list_all2_right)
    moreover from this have "fst x = AgentConfig.port config'" by (rule fetchExchanges_port)
    ultimately show "snd x = v" using p f by simp
  qed
  have "exchangesByPort st' = storeExchanges xs"
    by (simp add: st' publish_def)
  with storeExchanges_lookup[OF m u] show ?thesis by simp
qed

lemma refreshAll_tasks:
  "refreshAll net st = Resolved st' \<Longrightarrow> fetchTasks net = Resolved (activeTasks st')"
proof -
  assume "refreshAll net st = Resolved st'"
  then obtain as xs t where fr: "fetchRound net (agentConfigs st) = Resolved (as, xs, t)"
    and st': "st' = publish (as, xs, t) (st\<lparr>loading := True\<rparr>)"
    by (auto simp: refreshAll_Resolved)
  from fetchRound_Resolved(3)[OF fr] show ?thesis by (simp add: st' publish_def)
qed

lemma fetchExchanges_failed:
  "fetch_failed (net (History p)) \<Longrightarrow> fetchExchanges net p = Resolved (p, JArr [])"
  by (auto simp: fetch_failed_def fetchExchanges_def get_prop_def
        split: fetch_result.splits body.splits)

lemma fetchTasks_failed:
  "fetch_failed (net TasksList) \<Longrightarrow> fetchTasks net = Resolved (JArr [])"
  by (auto simp: fetch_failed_def fetchTasks_def get_prop_def
        split: fetch_result.splits body.splits)

text \<open>
  C8.  Neither \<^verbatim>\<open>fetchExchanges\<close> nor \<^verbatim>\<open>fetchTasks\<close> ever rejects.  When the history
  request of a port fails, \<^verbatim>\<open>fetchExchanges\<close> resolves with the empty list for that port,
  and a resolved round stores the empty list under it; when the task request fails,
  \<^verbatim>\<open>fetchTasks\<close> resolves with the empty list, and a resolved round publishes it.  A round
  whose requests all settle, failed or not, resolves.
\<close>

theorem fetch_failures_yield_empty_lists:
  "(\<forall>e. fetchExchanges net p \<noteq> Rejected e) \<and>
   (\<forall>e. fetchTasks net \<noteq> Rejected e) \<and>
   (fetch_failed (net (History p)) \<longrightarrow> fetchExchanges net p = Resolved (p, JArr [])) \<and>
   (fetch_failed (net TasksList) \<longrightarrow> fetchTasks net = Resolved (JArr [])) \<and>
   (\<forall>st'. refreshAll net st = Resolved st' \<longrightarrow>
      (fetch_failed (net TasksList) \<longrightarrow> activeTasks st' = JArr []) \<and>
      (\<forall>config\<in>set (agentConfigs st).
         fetch_failed (net (History (AgentConfig.port config))) \<longrightarrow>
         exchangesByPort st' (AgentConfig.port config) = Some (JArr []))) \<and>
   (round_settles net (agentConfigs st) \<longrightarrow> (\<exists>st'. refreshAll net st = Resolved st'))"
proof (intro conjI allI impI ballI)
  fix e show "fetchExchanges net p \<noteq> Rejected e" by (rule fetchExchanges_not_rejected)
next
  fix e show "fetchTasks net \<noteq> Rejected e" by (rule fetchTasks_not_rejected)
next
  assume "fetch_failed (net (History p))"
  then show "fetchExchanges net p = Resolved (p, JArr [])" by (rule fetchExchanges_failed)
next
  assume "fetch_failed (net TasksList)"
  then show "fetchTasks net = Resolved (JArr [])" by (rule fetchTasks_failed)
next
  fix st' assume "refreshAll net st = Resolved st'" and "fetch_failed (net TasksList)"
  then show "activeTasks st' = JArr []"
    by (auto dest!: refreshAll_tasks fetchTasks_failed)
next
  fix st' config
  assume r: "refreshAll net st = Resolved st'" and c: "config \<in> set (agentConfigs st)"
    and f: "fetch_failed (net (History (AgentConfig.port config)))"
  from f have "fetchExchanges net (AgentConfig.port config) =
      Resolved (AgentConfig.port config, JArr [])"
    by (rule fetchExchanges_failed)
  with r c show "exchangesByPort st' (AgentConfig.port config) = Some (JArr [])"
    by (rule refreshAll_stores_exchanges)
next
  assume "round_settles net (agentConfigs st)"
  then show "\<exists>st'. refreshAll net st = Resolved st'" by (rule refreshAll_resolves)
qed

theorem fetch_failures_yield_empty_lists_witness:
  "fetch_failed (demo_net (History 8001)) \<and> fetch_failed (demo_net TasksList) \<and>
   round_settles demo_net (agentConfigs initialState) \<and>
   fetchExchanges demo_net 8001 = Resolved (8001, JArr []) \<and>
   fetchTasks demo_net = Resolved (JArr []) \<and>
   (\<exists>st'. refreshAll demo_net initialState = Resolved st' \<and> activeTasks st' = JArr [] \<and>
          exchangesByPort st' 8001 = Some (JArr []) \<and> exchangesByPort st' 8002 = Some (JArr []))"
proof -
  note T = fetch_failures_yield_empty_lists[of demo_net 8001 initialState]
  have f: "fetch_failed (demo_net (History 8001))" "fetch_failed (demo_net (History 8002))"
    "fetch_failed (demo_net TasksList)"
    by (simp_all add: fetch_failed_def demo_net_def)
  have s: "round_settles demo_net (agentConfigs initialState)"
    by (simp add: round_settles_def settles_def demo_defs)
  from T s obtain st' where r: "refreshAll demo_net initialState = Resolved st'" by blast
  have c: "DEFAULT_AGENT_CONFIGS ! 1 \<in> set (agentConfigs initialState)"
    "DEFAULT_AGENT_CONFIGS ! 2 \<in> set (agentConfigs initialState)"
    by (simp_all add: initialState_def DEFAULT_AGENT_CONFIGS_def)
  from T r f(3) have "activeTasks st' = JArr []" by blast
  moreover from T r c(1) f(1) have "exchangesByPort st' 8001 = Some (JArr [])"
    by (auto simp: DEFAULT_AGENT_CONFIGS_def)
  moreover from T r c(2) f(2) have "exchangesByPort st' 8002 = Some (JArr [])"
    by (auto simp: DEFAULT_AGENT_CONFIGS_def)
  moreover from T f have "fetchExchanges demo_net 8001 = Resolved (8001, JArr [])"
    "fetchTasks demo_net = Resolved (JArr [])" by blast+
  ultimately show ?thesis using f s r by simp
qed

text \<open>
  C5, as the code has it.  Nothing clamps a confidence: when the history response of a
  port is ok and its \<^verbatim>\<open>exchanges\<close> field is truthy, \<^verbatim>\<open>fetchExchanges\<close> resolves with that
  field as it was received, and a resolved round stores it unchanged under the port.
\<close>

theorem exchanges_stored_as_received:
  "net (History p) = Response True (Parsed data) \<and> \<not> nullish data \<and>
   truthy (own_prop data ''exchanges'') \<longrightarrow>
     fetchExchanges net p = Resolved (p, own_prop data ''exchanges'') \<and>
     (\<forall>st st'. refreshAll net st = Resolved st' \<and>
        list_ex (\<lambda>config. AgentConfig.port config = p) (agentConfigs st) \<longrightarrow>
        exchangesByPort st' p = Some (own_prop data ''exchanges''))"
proof (intro impI conjI allI)
  assume a: "net (History p) = Response True (Parsed data) \<and> \<not> nullish data \<and>
    truthy (own_prop data ''exchanges'')"
  then show f: "fetchExchanges net p = Resolved (p, own_prop data ''exchanges'')"
    by (simp add: fetchExchanges_def get_prop_def js_or_def)
  fix st st'
  assume "refreshAll net st = Resolved st' \<and>
        list_ex (\<lambda>config. AgentConfig.port config = p) (agentConfigs st)"
  then obtain config where r: "refreshAll net st = Resolved st'"
    and c: "config \<in> set (agentConfigs st)" and p: "AgentConfig.port config = p"
    by (auto simp: list_ex_iff)
  from refreshAll_stores_exchanges[OF r c] f p
  show "exchangesByPort st' p = Some (own_prop data ''exchanges'')" by simp
qed

theorem exchanges_stored_as_received_witness:
  "demo_net (History 8000) = Response True (Parsed (JObj [(''exchanges'', JArr [demo_record])])) \<and>
   fetchExchanges demo_net 8000 = Resolved (8000, JArr [demo_record]) \<and>
   (\<exists>st'. refreshAll demo_net initialState = Resolved st' \<and>
          exchangesByPort st' 8000 = Some (JArr [demo_record]))"
proof -
  note T = exchanges_stored_as_received[of demo_net 8000 "JObj [(''exchanges'', JArr [demo_record])]"]
  have n: "demo_net (History 8000) = Response True (Parsed (JObj [(''exchanges'', JArr [demo_record])]))"
    by (simp add: demo_net_def)
  have s: "round_settles demo_net (agentConfigs initialState)"
    by (simp add: round_settles_def settles_def demo_defs)
  then obtain st' where r: "refreshAll demo_net initialState = Resolved st'"
    by (auto dest: refreshAll_resolves)
  have c: "list_ex (\<lambda>config. AgentConfig.port config = 8000) (agentConfigs initialState)"
    by (simp add: initialState_def DEFAULT_AGENT_CONFIGS_def)
  from T n have "fetchExchanges demo_net 8000 = Resolved (8000, JArr [demo_record])"
    by (simp add: nullish_def)
  moreover from T n r c have "exchangesByPort st' 8000 = Some (JArr [demo_record])"
    by (simp add: nullish_def)
  ultimately show ?thesis using n r by blast
qed

text \<open>
  C5, as the claim states it, fails: the record with confidence 1.5 that port 8000 returns
  is stored by the round with its confidence still 1.5.
\<close>

theorem confidence_not_clamped:
  "stored_exchanges (refreshAll demo_net initialState) 8000 = Some (JArr [demo_record]) \<and>
   own_prop demo_record ''confidence'' = JNum (3 / 2) \<and>
   \<not> (3 / 2 \<le> (1 :: real))"
proof -
  have s: "round_settles demo_net (agentConfigs initialState)"
    by (simp add: round_settles_def settles_def demo_defs)
  then obtain st' where r: "refreshAll demo_net initialState = Resolved st'"
    by (auto dest: refreshAll_resolves)
  have c: "DEFAULT_AGENT_CONFIGS ! 0 \<in> set (agentConfigs initialState)"
    by (simp add: initialState_def DEFAULT_AGENT_CONFIGS_def)
  have f: "fetchExchanges demo_net (AgentConfig.port (DEFAULT_AGENT_CONFIGS ! 0)) =
      Resolved (AgentConfig.port (DEFAULT_AGENT_CONFIGS ! 0), JArr [demo_record])"
    by (simp add: fetchExchanges_def demo_net_def DEFAULT_AGENT_CONFIGS_def get_prop_def
          nullish_def js_or_def)
  from refreshAll_stores_exchanges[OF r c f]
  have "exchangesByPort st' 8000 = Some (JArr [demo_record])"
    by (simp add: DEFAULT_AGENT_CONFIGS_def)
  with r show ?thesis by (simp add: stored_exchanges_def demo_record_def)
qed

section \<open>Peer registry\<close>

lemma js_parseInt_8001: "js_parseInt ''8001'' = Some 8001"
  by (simp add: js_parseInt_def is_space_def is_digit_def digit_value_def Let_def)

lemma js_parseInt_8003: "js_parseInt ''8003'' = Some 8003"
  by (simp add: js_parseInt_def is_space_def is_digit_def digit_value_def Let_def)

lemma js_toString_8003: "js_toString 8003 = ''8003''"
  by (simp add: js_toString_def digits10.simps)

lemma initial_ports_distinct: "distinct (map AgentConfig.port (agentConfigs initialState))"
  by (simp add: initialState_def DEFAULT_AGENT_CONFIGS_def)

lemma addAgent_ports_distinct:
  "distinct (map AgentConfig.port (agentConfigs st)) \<Longrightarrow>
   distinct (map AgentConfig.port (agentConfigs (snd (addAgent parseInt toString st))))"
  by (auto simp: addAgent_def list_ex_iff split: option.splits)

lemma removeAgent_ports_distinct:
  "distinct (map AgentConfig.port (agentConfigs st)) \<Longrightarrow>
   distinct (map AgentConfig.port (agentConfigs (removeAgent p st)))"
  by (simp add: removeAgent_def distinct_map_filter)

text \<open>
  C6, as the code has it.  \<^verbatim>\<open>addAgent\<close> returns undefined on every path and signals no
  error.  When the parsed port is that of an existing descriptor, or is NaN or 0, the
  whole state is left as it was; when it is a non-zero port that no descriptor has, the
  complete new descriptor is appended in one state update, and the form is reset.
\<close>

theorem addAgent_registry:
  "fst (addAgent parseInt toString st) = JUndefined \<and>
   (parseInt (newAgentPort st) = Some p \<and>
    list_ex (\<lambda>c. AgentConfig.port c = p) (agentConfigs st) \<longrightarrow>
      snd (addAgent parseInt toString st) = st) \<and>
   (parseInt (newAgentPort st) = None \<or> parseInt (newAgentPort st) = Some 0 \<longrightarrow>
      snd (addAgent parseInt toString st) = st) \<and>
   (parseInt (newAgentPort st) = Some p \<and> p \<noteq> 0 \<and>
    \<not> list_ex (\<lambda>c. AgentConfig.port c = p) (agentConfigs st) \<longrightarrow>
      snd (addAgent parseInt toString st) =
        st\<lparr>agentConfigs := agentConfigs st @
               [\<lparr>AgentConfig.port = p,
                 fallbackId = ''agent-'' @ toString p,
                 fallbackName = ''Agent :'' @ toString p,
                 fallbackDomain = ''unknown''\<rparr>],
           newAgentPort := [],
           showAddAgent := False\<rparr>)"
  by (auto simp: addAgent_def split: option.splits)

theorem addAgent_registry_witness:
  "js_parseInt (newAgentPort demo_duplicate) = Some 8001 \<and>
   list_ex (\<lambda>c. AgentConfig.port c = 8001) (agentConfigs demo_duplicate) \<and>
   addAgent js_parseInt js_toString demo_duplicate = (JUndefined, demo_duplicate) \<and>
   js_parseInt (newAgentPort demo_fresh) = Some 8003 \<and>
   \<not> list_ex (\<lambda>c. AgentConfig.port c = 8003) (agentConfigs demo_fresh) \<and>
   addAgent js_parseInt js_toString demo_fresh =
     (JUndefined,
      demo_fresh\<lparr>agentConfigs := DEFAULT_AGENT_CONFIGS @
                     [\<lparr>AgentConfig.port = 8003, fallbackId = ''agent-8003'',
                       fallbackName = ''Agent :8003'', fallbackDomain = ''unknown''\<rparr>],
                 newAgentPort := [],
                 showAddAgent := False\<rparr>)"
proof -
  have d: "js_parseInt (newAgentPort demo_duplicate) = Some 8001"
    "list_ex (\<lambda>c. AgentConfig.port c = 8001) (agentConfigs demo_duplicate)"
    by (simp_all add: demo_duplicate_def initialState_def DEFAULT_AGENT_CONFIGS_def js_parseInt_8001)
  have f: "js_parseInt (newAgentPort demo_fresh) = Some 8003"
    "\<not> list_ex (\<lambda>c. AgentConfig.port c = 8003) (agentConfigs demo_fresh)"
    by (simp_all add: demo_fresh_def initialState_def DEFAULT_AGENT_CONFIGS_def js_parseInt_8003)
  have c: "agentConfigs demo_fresh = DEFAULT_AGENT_CONFIGS"
    by (simp add: demo_fresh_def initialState_def)
  from addAgent_registry[of js_parseInt js_toString demo_duplicate 8001] d
  have "addAgent js_parseInt js_toString demo_duplicate = (JUndefined, demo_duplicate)"
    by (simp add: prod_eq_iff)
  moreover from addAgent_registry[of js_parseInt js_toString demo_fresh 8003] f
  have "addAgent js_parseInt js_toString demo_fresh =
     (JUndefined,
      demo_fresh\<lparr>agentConfigs := DEFAULT_AGENT_CONFIGS @
                     [\<lparr>AgentConfig.port = 8003, fallbackId = ''agent-8003'',
                       fallbackName = ''Agent :8003'', fallbackDomain = ''unknown''\<rparr>],
                 newAgentPort := [],
                 showAddAgent := False\<rparr>)"
    by (simp add: prod_eq_iff c js_toString_8003)
  ultimately show ?thesis using d f by simp
qed

text \<open>
  C6, as the claim states it, fails: adding port 8001 again leaves the state as it was,
  but what \<^verbatim>\<open>addAgent\<close> returns is undefined, not an error.
\<close>

theorem addAgent_duplicate_returns_undefined:
  "js_parseInt ''8001'' = Some 8001 \<and>
   newAgentPort demo_duplicate = ''8001'' \<and>
   addAgent js_parseInt js_toString demo_duplicate = (JUndefined, demo_duplicate)"
  by (simp add: addAgent_def js_parseInt_8001 demo_duplicate_def initialState_def
        DEFAULT_AGENT_CONFIGS_def)

section \<open>Task states\<close>

lemma inj_spec_state_color: "inj spec_state_color"
proof (rule injI)
  fix x y assume "spec_state_color x = spec_state_color y"
  then show "x = y" by (cases x; cases y) simp_all
qed

text \<open>
  C9, as the code has it.  For a state label that is a string, as the \<^verbatim>\<open>A2ATask\<close>
  interface declares it, the two \<^verbatim>\<open>switch\<close> statements are a fixed table through the five
  internal states: the colour and the icon are those of the state the table gives the
  label; different states have different colours; and a label that is none of the four
  tested ones is given \<open>Unknown\<close>, with the default colour and icon.  Both functions are
  total on strings, and for a task whose state is a string the text of the state badge is
  the label without its prefix, with no throw.
\<close>

theorem task_state_table:
  "getTaskStateColor label = spec_state_color (spec_task_state label) \<and>
   getTaskStateIcon label = spec_state_icon (spec_task_state label) \<and>
   inj spec_state_color \<and>
   (label \<notin> {''TASK_STATE_SUBMITTED'', ''TASK_STATE_WORKING'', ''TASK_STATE_COMPLETED'',
               ''TASK_STATE_FAILED''} \<longrightarrow>
      spec_task_state label = Unknown \<and> getTaskStateColor label = ''#6b7280'' \<and>
      getTaskStateIcon label = Clock) \<and>
   spec_task_state ''TASK_STATE_SUBMITTED'' = Submitted \<and>
   spec_task_state ''TASK_STATE_WORKING'' = Working \<and>
   spec_task_state ''TASK_STATE_COMPLETED'' = Completed \<and>
   spec_task_state ''TASK_STATE_FAILED'' = Failed \<and>
   (\<forall>task st. get_prop task ''status'' = Inr st \<and> get_prop st ''state'' = Inr (JStr label) \<longrightarrow>
      stateLabelText task = Inr (replace_first ''TASK_STATE_'' [] label))"
  by (simp add: getTaskStateColor_def getTaskStateIcon_def spec_task_state_def
        inj_spec_state_color stateLabelText_def)

theorem task_state_table_witness:
  "''TASK_STATE_CANCELLED'' \<notin> {''TASK_STATE_SUBMITTED'', ''TASK_STATE_WORKING'',
      ''TASK_STATE_COMPLETED'', ''TASK_STATE_FAILED''} \<and>
   spec_task_state ''TASK_STATE_CANCELLED'' = Unknown \<and>
   getTaskStateColor ''TASK_STATE_CANCELLED'' = ''#6b7280'' \<and>
   getTaskStateIcon ''TASK_STATE_CANCELLED'' = Clock \<and>
   getTaskStateColor ''TASK_STATE_WORKING'' = ''#3b82f6'' \<and>
   getTaskStateIcon ''TASK_STATE_WORKING'' = RefreshCw \<and>
   get_prop demo_task ''status'' =
     Inr (JObj [(''state'', JStr ''TASK_STATE_CANCELLED''), (''timestamp'', JNum 1700000000)]) \<and>
   stateLabelText demo_task = Inr ''CANCELLED''"
proof -
  note T = task_state_table[of "''TASK_STATE_CANCELLED''"]
  have s: "get_prop demo_task ''status'' =
      Inr (JObj [(''state'', JStr ''TASK_STATE_CANCELLED''), (''timestamp'', JNum 1700000000)])"
    by (simp add: demo_task_def get_prop_def nullish_def)
  have t: "get_prop (JObj [(''state'', JStr ''TASK_STATE_CANCELLED''),
        (''timestamp'', JNum 1700000000)]) ''state'' = Inr (JStr ''TASK_STATE_CANCELLED'')"
    by (simp add: get_prop_def nullish_def)
  from T s t have "stateLabelText demo_task =
      Inr (replace_first ''TASK_STATE_'' [] ''TASK_STATE_CANCELLED'')"
    by blast
  then have "stateLabelText demo_task = Inr ''CANCELLED''"
    by simp
  moreover from T have u: "spec_task_state ''TASK_STATE_CANCELLED'' = Unknown" by simp
  ultimately show ?thesis
    using s T task_state_table[of "''TASK_STATE_WORKING''"] by simp
qed

text \<open>
  C9, as the claim states it, fails for a state that is not a string, which nothing
  checks: the task registry returns a task whose state is the number 3, \<^verbatim>\<open>fetchTasks\<close>
  resolves with it unchanged, and the text of its state badge throws a TypeError, so the
  task list fails to render instead of showing the task as unknown.
\<close>

theorem numeric_state_label_throws:
  "fetchTasks tasks_net = Resolved (JArr [numeric_task]) \<and>
   get_prop numeric_task ''status'' =
     Inr (JObj [(''state'', JNum 3), (''timestamp'', JNum 1700000000)]) \<and>
   get_prop (JObj [(''state'', JNum 3), (''timestamp'', JNum 1700000000)]) ''state'' =
     Inr (JNum 3) \<and>
   stateLabelText numeric_task = Inl TypeError"
  by (simp add: fetchTasks_def tasks_net_def get_prop_def get_prop_opt_def nullish_def
        js_or_def numeric_task_def stateLabelText_def)

section \<open>The mesh of the network graph\<close>

lemma mesh_nested_loops:
  "concat (map (\<lambda>i. map (\<lambda>j. f (xs ! i) (xs ! j)) [i + 1 ..< length xs]) [0 ..< length xs]) =
   map (\<lambda>(a, b). f a b) (later_pairs xs)"
proof (induction xs)
  case Nil
  show ?case by simp
next
  case (Cons x xs)
  have outer: "[0 ..< length (x # xs)] = 0 # map Suc [0 ..< length xs]"
    by (simp add: upt_conv_Cons map_Suc_upt del: upt_Suc)
  have first: "map (\<lambda>j. f ((x # xs) ! 0) ((x # xs) ! j)) [0 + 1 ..< length (x # xs)] = map (f x) xs"
  proof -
    have "[0 + 1 ..< length (x # xs)] = map Suc [0 ..< length xs]"
      by (simp add: map_Suc_upt del: upt_Suc)
    then have "map (\<lambda>j. f ((x # xs) ! 0) ((x # xs) ! j)) [0 + 1 ..< length (x # xs)] =
        map (\<lambda>j. f x (xs ! j)) [0 ..< length xs]"
      by (simp add: comp_def del: upt_Suc)
    also have "\<dots> = map (f x) (map (\<lambda>j. xs ! j) [0 ..< length xs])"
      by (simp add: comp_def del: upt_Suc)
    also have "\<dots> = map (f x) xs"
      by (simp add: map_nth)
    finally show ?thesis .
  qed
  have inner: "map (\<lambda>j. f ((x # xs) ! Suc i) ((x # xs) ! j)) [Suc i + 1 ..< length (x # xs)] =
      map (\<lambda>j. f (xs ! i) (xs ! j)) [i + 1 ..< length xs]" for i
  proof -
    have "[Suc i + 1 ..< length (x # xs)] = map Suc [i + 1 ..< length xs]"
      by (simp add: map_Suc_upt del: upt_Suc)
    then show ?thesis by (simp add: comp_def del: upt_Suc)
  qed
  have "concat (map (\<lambda>i. map (\<lambda>j. f ((x # xs) ! i) ((x # xs) ! j)) [i + 1 ..< length (x # xs)])
          [0 ..< length (x # xs)]) =
        map (\<lambda>j. f ((x # xs) ! 0) ((x # xs) ! j)) [0 + 1 ..< length (x # xs)] @
        concat (map (\<lambda>i. map (\<lambda>j. f ((x # xs) ! Suc i) ((x # xs) ! j)) [Suc i + 1 ..< length (x # xs)])
          [0 ..< length xs])"
    unfolding outer by (simp add: comp_def del: upt_Suc)
  also have "\<dots> = map (f x) xs @
        concat (map (\<lambda>i. map (\<lambda>j. f (xs ! i) (xs ! j)) [i + 1 ..< length xs]) [0 ..< length xs])"
    unfolding first inner ..
  also have "\<dots> = map (\<lambda>(a, b). f a b) (later_pairs (x # xs))"
    using Cons.IH by (simp add: comp_def)
  finally show ?case .
qed

lemma later_pairs_map:
  "later_pairs (map g xs) = map (\<lambda>(a, b). (g a, g b)) (later_pairs xs)"
  by (induction xs) (simp_all add: comp_def)

lemma initialEdges_pairs:
  "initialEdges agts exchanges =
     map (\<lambda>(a, b). meshEdge exchanges a b) (later_pairs (online_ids agts))"
proof -
  let ?on = "filter (\<lambda>a. status a = online) agts"
  have "initialEdges agts exchanges =
      map (\<lambda>(a, b). meshEdge exchanges (agent_id a) (agent_id b)) (later_pairs ?on)"
    unfolding initialEdges_def Let_def
    by (rule mesh_nested_loops[where f = "\<lambda>a b. meshEdge exchanges (agent_id a) (agent_id b)"])
  then show ?thesis
    by (simp add: online_ids_def later_pairs_map comp_def case_prod_unfold)
qed

lemma newEdges_initialEdges: "newEdges agts exchanges = initialEdges agts exchanges"
  by (simp add: newEdges_def initialEdges_def)

lemma later_pairs_members:
  "(a, b) \<in> set (later_pairs xs) \<Longrightarrow> a \<in> set xs \<and> b \<in> set xs"
  by (induction xs) auto

lemma later_pairs_distinct:
  "distinct xs \<Longrightarrow> (a, b) \<in> set (later_pairs xs) \<Longrightarrow> a \<noteq> b"
  by (induction xs) (auto dest: later_pairs_members)

lemma distinct_once: "distinct xs \<Longrightarrow> b \<in> set xs \<Longrightarrow> length (filter (\<lambda>y. y = b) xs) = 1"
  by (induction xs) (auto simp: filter_empty_conv)

lemma later_pairs_once:
  "distinct xs \<Longrightarrow> a \<in> set xs \<Longrightarrow> b \<in> set xs \<Longrightarrow> a \<noteq> b \<Longrightarrow>
   length (filter (\<lambda>(x, y). x = a \<and> y = b \<or> x = b \<and> y = a) (later_pairs xs)) = 1"
proof (induction xs)
  case Nil
  then show ?case by simp
next
  case (Cons x xs)
  let ?P = "\<lambda>(x, y). x = a \<and> y = b \<or> x = b \<and> y = a"
  have none: "filter ?P (later_pairs xs) = []" if "a \<notin> set xs \<or> b \<notin> set xs"
    using that by (auto simp: filter_empty_conv dest: later_pairs_members)
  consider "x = a" | "x = b" | "x \<noteq> a" "x \<noteq> b" by blast
  then show ?case
  proof cases
    case 1
    with Cons.prems have b: "b \<in> set xs" and a: "a \<notin> set xs" and d: "distinct xs" by auto
    have "filter ?P (map (Pair x) xs) = map (Pair x) (filter (\<lambda>y. y = b) xs)"
      using 1 Cons.prems(4) by (auto simp: filter_map comp_def intro!: arg_cong[where f = "map (Pair a)"] filter_cong)
    with distinct_once[OF d b] none a show ?thesis by simp
  next
    case 2
    with Cons.prems have a: "a \<in> set xs" and b: "b \<notin> set xs" and d: "distinct xs" by auto
    have "filter ?P (map (Pair x) xs) = map (Pair x) (filter (\<lambda>y. y = a) xs)"
      using 2 Cons.prems(4) by (auto simp: filter_map comp_def intro!: arg_cong[where f = "map (Pair b)"] filter_cong)
    with distinct_once[OF d a] none b show ?thesis by simp
  next
    case 3
    with Cons.prems have "a \<in> set xs" "b \<in> set xs" "distinct xs" by auto
    with Cons.IH Cons.prems(4) have "length (filter ?P (later_pairs xs)) = 1" by simp
    moreover have "filter ?P (map (Pair x) xs) = []"
      using 3 by (auto simp: filter_empty_conv)
    ultimately show ?thesis by simp
  qed
qed

lemma online_ids_status:
  "distinct (map agent_id agts) \<Longrightarrow> a \<in> set agts \<Longrightarrow> agent_id a \<in> set (online_ids agts) \<Longrightarrow>
   status a = online"
  by (auto simp: online_ids_def distinct_map dest: inj_onD)

lemma later_pairs_length: "2 * length (later_pairs xs) = length xs * (length xs - 1)"
proof (induction xs)
  case Nil
  show ?case by simp
next
  case (Cons x xs)
  have "length xs \<le> length xs * length xs"
    by (cases "length xs") simp_all
  with Cons.IH show ?case
    by (simp add: algebra_simps)
qed

text \<open>
  C3, as the code has it.  The mesh has one edge for each pair of positions in the list
  of online agents, and each edge joins the identifiers of two online agents of the list.
  When the agents passed to the graph have pairwise different identifiers, moreover: the
  two ends of an edge differ; no agent of the list that an edge names is offline; and for
  any two different online agents exactly one edge joins them, in one direction only.
  The effect that recomputes the edges builds the same list.
\<close>

theorem mesh_edges_of_distinct_agents:
  "newEdges agts exchanges = initialEdges agts exchanges \<and>
   (\<forall>e\<in>set (initialEdges agts exchanges).
      source e \<in> set (online_ids agts) \<and> target e \<in> set (online_ids agts)) \<and>
   2 * length (initialEdges agts exchanges) =
     length (online_ids agts) * (length (online_ids agts) - 1) \<and>
   (distinct (map agent_id agts) \<longrightarrow>
      (\<forall>e\<in>set (initialEdges agts exchanges).
         source e \<noteq> target e \<and>
         (\<forall>a\<in>set agts. agent_id a = source e \<or> agent_id a = target e \<longrightarrow> status a = online)) \<and>
      (\<forall>a\<in>set (online_ids agts). \<forall>b\<in>set (online_ids agts). a \<noteq> b \<longrightarrow>
         length (filter (\<lambda>e. joins e a b) (initialEdges agts exchanges)) = 1))"
proof (intro impI conjI ballI)
  show "newEdges agts exchanges = initialEdges agts exchanges"
    by (rule newEdges_initialEdges)
next
  show "2 * length (initialEdges agts exchanges) =
     length (online_ids agts) * (length (online_ids agts) - 1)"
    by (simp add: initialEdges_pairs later_pairs_length)
next
  fix e assume "e \<in> set (initialEdges agts exchanges)"
  then obtain a b where ab: "(a, b) \<in> set (later_pairs (online_ids agts))"
    and e: "e = meshEdge exchanges a b"
    by (auto simp: initialEdges_pairs)
  from ab have m: "a \<in> set (online_ids agts)" "b \<in> set (online_ids agts)"
    by (auto dest: later_pairs_members)
  from e m show "source e \<in> set (online_ids agts)" "target e \<in> set (online_ids agts)"
    by (simp_all add: meshEdge_def)
next
  assume d: "distinct (map agent_id agts)"
  then have d': "distinct (online_ids agts)"
    unfolding online_ids_def by (rule distinct_map_filter)
  {
    fix e assume "e \<in> set (initialEdges agts exchanges)"
    then obtain a b where ab: "(a, b) \<in> set (later_pairs (online_ids agts))"
      and e: "e = meshEdge exchanges a b"
      by (auto simp: initialEdges_pairs)
    from ab have m: "a \<in> set (online_ids agts)" "b \<in> set (online_ids agts)"
      by (auto dest: later_pairs_members)
    from d' ab e show "source e \<noteq> target e"
      by (auto simp: meshEdge_def dest: later_pairs_distinct)
    fix c assume "c \<in> set agts" and "agent_id c = source e \<or> agent_id c = target e"
    with d e m show "status c = online"
      by (auto simp: meshEdge_def intro: online_ids_status)
  }
  fix a b assume "a \<in> set (online_ids agts)" "b \<in> set (online_ids agts)" "a \<noteq> b"
  with d' have "length (filter (\<lambda>(x, y). x = a \<and> y = b \<or> x = b \<and> y = a)
      (later_pairs (online_ids agts))) = 1"
    by (rule later_pairs_once)
  moreover have "(\<lambda>e. joins e a b) \<circ> (\<lambda>(x, y). meshEdge exchanges x y) =
      (\<lambda>(x, y). x = a \<and> y = b \<or> x = b \<and> y = a)"
    by (auto simp: joins_def meshEdge_def fun_eq_iff)
  ultimately show "length (filter (\<lambda>e. joins e a b) (initialEdges agts exchanges)) = 1"
    by (simp add: initialEdges_pairs)
qed

lemma demo_online_ids: "online_ids demo_agents = [''A'', ''B'', ''D'']"
  by (simp add: online_ids_def demo_agents_def graph_agent_def)

lemma demo_edges:
  "initialEdges demo_agents [demo_exchange] =
     [meshEdge [demo_exchange] ''A'' ''B'', meshEdge [demo_exchange] ''A'' ''D'',
      meshEdge [demo_exchange] ''B'' ''D'']"
  by (simp add: initialEdges_pairs demo_online_ids)

theorem mesh_edges_of_distinct_agents_witness:
  "distinct (map agent_id demo_agents) \<and>
   online_ids demo_agents = [''A'', ''B'', ''D''] \<and>
   map edge_ends (initialEdges demo_agents [demo_exchange]) =
     [(''A'', ''B''), (''A'', ''D''), (''B'', ''D'')] \<and>
   length (filter (\<lambda>e. joins e ''D'' ''A'') (initialEdges demo_agents [demo_exchange])) = 1"
proof -
  have d: "distinct (map agent_id demo_agents)"
    by (simp add: demo_agents_def graph_agent_def)
  from mesh_edges_of_distinct_agents[of demo_agents "[demo_exchange]"] d
  have "length (filter (\<lambda>e. joins e ''D'' ''A'') (initialEdges demo_agents [demo_exchange])) = 1"
    by (simp add: demo_online_ids)
  moreover have "map edge_ends (initialEdges demo_agents [demo_exchange]) =
     [(''A'', ''B''), (''A'', ''D''), (''B'', ''D'')]"
    by (simp add: demo_edges edge_ends_def meshEdge_def)
  ultimately show ?thesis using d demo_online_ids by simp
qed

text \<open>
  C3, as the claim states it, fails when two agents report one identifier, which a round
  publishes as it is: for the online agents alpha, beta, alpha the mesh has an edge from
  alpha to beta and one from beta to alpha, and an edge from alpha to itself.
\<close>

theorem mesh_edges_of_clashing_agents:
  "map agent_id (published_agents (refreshAll clash_net initialState)) =
     [JStr ''dkmes-alpha'', JStr ''agent-beta-aiml'', JStr ''dkmes-alpha''] \<and>
   map status (published_agents (refreshAll clash_net initialState)) = [online, online, online] \<and>
   map agent_id clash_agents = [''dkmes-alpha'', ''agent-beta-aiml'', ''dkmes-alpha''] \<and>
   map status clash_agents = [online, online, online] \<and>
   map edge_ends (initialEdges clash_agents []) =
     [(''dkmes-alpha'', ''agent-beta-aiml''), (''dkmes-alpha'', ''dkmes-alpha''),
      (''agent-beta-aiml'', ''dkmes-alpha'')]"
proof -
  have "round_settles clash_net (agentConfigs initialState)"
    by (simp add: round_settles_def settles_def clash_net_def initialState_def
          DEFAULT_AGENT_CONFIGS_def)
  then obtain st' where r: "refreshAll clash_net initialState = Resolved st'"
    by (auto dest: refreshAll_resolves)
  then obtain as xs t where
    f: "fetchRound clash_net (agentConfigs initialState) = Resolved (as, xs, t)"
    and st': "st' = publish (as, xs, t) (initialState\<lparr>loading := True\<rparr>)"
    by (auto simp: refreshAll_Resolved)
  from fetchRound_Resolved(1)[OF f] obtain a0 a1 a2 where as: "as = [a0, a1, a2]"
    and a0: "fetchAgentStatus clash_net (DEFAULT_AGENT_CONFIGS ! 0) = Resolved a0"
    and a1: "fetchAgentStatus clash_net (DEFAULT_AGENT_CONFIGS ! 1) = Resolved a1"
    and a2: "fetchAgentStatus clash_net (DEFAULT_AGENT_CONFIGS ! 2) = Resolved a2"
    by (auto simp: initialState_def DEFAULT_AGENT_CONFIGS_def list_all2_Cons1)
  from a0 have "agent_id a0 = JStr ''dkmes-alpha'' \<and> status a0 = online"
    by (auto simp: clash_net_def DEFAULT_AGENT_CONFIGS_def fetchAgentStatus_def
          online_status_def get_prop_def nullish_def js_or_def)
  moreover from a1 have "agent_id a1 = JStr ''agent-beta-aiml'' \<and> status a1 = online"
    by (auto simp: clash_net_def DEFAULT_AGENT_CONFIGS_def fetchAgentStatus_def
          online_status_def get_prop_def nullish_def js_or_def)
  moreover from a2 have "agent_id a2 = JStr ''dkmes-alpha'' \<and> status a2 = online"
    by (auto simp: clash_net_def DEFAULT_AGENT_CONFIGS_def fetchAgentStatus_def
          online_status_def get_prop_def nullish_def js_or_def)
  moreover have "published_agents (refreshAll clash_net initialState) = [a0, a1, a2]"
    by (simp add: r published_agents_def st' publish_def as)
  moreover have "map edge_ends (initialEdges clash_agents []) =
     [(''dkmes-alpha'', ''agent-beta-aiml''), (''dkmes-alpha'', ''dkmes-alpha''),
      (''agent-beta-aiml'', ''dkmes-alpha'')]"
    by (simp add: initialEdges_pairs online_ids_def clash_agents_def graph_agent_def
          edge_ends_def meshEdge_def)
  ultimately show ?thesis
    by (simp add: clash_agents_def graph_agent_def)
qed

text \<open>
  C4.  An edge of the mesh is animated exactly when some exchange record names one of
  its two agents as sender and the other as receiver, in either direction; the edges the
  effect recomputes are the same.
\<close>

theorem edge_active_iff_exchange:
  "(\<forall>e\<in>set (initialEdges agts exchanges).
      animated e \<longleftrightarrow>
        (\<exists>ex\<in>set exchanges.
           (sender_agent_id ex = source e \<and> receiver_agent_id ex = Some (target e)) \<or>
           (sender_agent_id ex = target e \<and> receiver_agent_id ex = Some (source e)))) \<and>
   newEdges agts exchanges = initialEdges agts exchanges"
proof (intro conjI ballI)
  fix e assume "e \<in> set (initialEdges agts exchanges)"
  then obtain a b where "e = meshEdge exchanges a b"
    by (auto simp: initialEdges_pairs)
  then show "animated e \<longleftrightarrow>
        (\<exists>ex\<in>set exchanges.
           (sender_agent_id ex = source e \<and> receiver_agent_id ex = Some (target e)) \<or>
           (sender_agent_id ex = target e \<and> receiver_agent_id ex = Some (source e)))"
    by (simp add: meshEdge_def hasExchange_def list_ex_iff)
next
  show "newEdges agts exchanges = initialEdges agts exchanges"
    by (rule newEdges_initialEdges)
qed

theorem edge_active_iff_exchange_witness:
  "map edge_ends (initialEdges demo_agents [demo_exchange]) =
     [(''A'', ''B''), (''A'', ''D''), (''B'', ''D'')] \<and>
   map animated (initialEdges demo_agents [demo_exchange]) = [True, False, False] \<and>
   sender_agent_id demo_exchange = ''B'' \<and> receiver_agent_id demo_exchange = Some ''A''"
proof -
  note T = edge_active_iff_exchange[of demo_agents "[demo_exchange]"]
  have ends: "map edge_ends (initialEdges demo_agents [demo_exchange]) =
     [(''A'', ''B''), (''A'', ''D''), (''B'', ''D'')]"
    by (simp add: demo_edges edge_ends_def meshEdge_def)
  have ex: "sender_agent_id demo_exchange = ''B''" "receiver_agent_id demo_exchange = Some ''A''"
    by (simp_all add: demo_exchange_def)
  have st: "source (meshEdge xs a b) = a" "target (meshEdge xs a b) = b" for xs a b
    by (simp_all add: meshEdge_def)
  from T have "animated (meshEdge [demo_exchange] ''A'' ''B'')"
    "\<not> animated (meshEdge [demo_exchange] ''A'' ''D'')"
    "\<not> animated (meshEdge [demo_exchange] ''B'' ''D'')"
    by (simp_all add: demo_edges st ex)
  then have "map animated (initialEdges demo_agents [demo_exchange]) = [True, False, False]"
    by (simp add: demo_edges)
  with ends ex show ?thesis by simp
qed

section \<open>Rounds in flight\<close>

lemma manual_step_keeps_one:
  assumes "one_round s" and "manual ev" and "step s ev = Some s'"
  shows "one_round s'"
  using assms by (cases ev) (auto simp: one_round_def manual_def startRound_def split: if_splits)

lemma manual_run_keeps_one:
  "one_round s \<Longrightarrow> list_all manual evs \<Longrightarrow> run s evs = Some s' \<Longrightarrow> one_round s'"
proof (induction evs arbitrary: s)
  case Nil
  then show ?case by simp
next
  case (Cons ev evs)
  from Cons.prems(3) obtain s1 where s1: "step s ev = Some s1" and r: "run s1 evs = Some s'"
    by (auto split: option.splits)
  from Cons.prems(1,2) s1 have "one_round s1"
    by (auto intro: manual_step_keeps_one)
  with Cons.IH r Cons.prems(2) show ?case by simp
qed

text \<open>
  C7, as the code has it.  Only the Refresh button is held back while a round runs: it
  cannot be clicked while \<^verbatim>\<open>loading\<close> is set.  The interval and the effect call
  \<^verbatim>\<open>refreshAll\<close> whatever the state, and each call starts one more round.  So from a
  state with at most one round in flight, and \<^verbatim>\<open>loading\<close> set exactly while one is, rounds
  started by the button only never overlap.
\<close>

theorem rounds_in_flight:
  "(loadingFlag s \<longrightarrow> step s RefreshClicked = None) \<and>
   (intervalSet s \<longrightarrow> (\<exists>s'. step s IntervalFires = Some s' \<and> inFlight s' = inFlight s + 1)) \<and>
   (\<exists>s'. step s (EffectRuns auto) = Some s' \<and> inFlight s' = inFlight s + 1) \<and>
   (\<forall>evs s'. one_round s \<and> list_all manual evs \<and> run s evs = Some s' \<longrightarrow>
      inFlight s' \<le> 1)"
proof (intro conjI allI impI)
  assume "loadingFlag s" then show "step s RefreshClicked = None" by simp
next
  assume "intervalSet s"
  then show "\<exists>s'. step s IntervalFires = Some s' \<and> inFlight s' = inFlight s + 1"
    by (simp add: startRound_def)
next
  show "\<exists>s'. step s (EffectRuns auto) = Some s' \<and> inFlight s' = inFlight s + 1"
    by (simp add: startRound_def)
next
  fix evs s'
  assume "one_round s \<and> list_all manual evs \<and> run s evs = Some s'"
  then have "one_round s'"
    by (auto intro: manual_run_keeps_one)
  then show "inFlight s' \<le> 1" by (simp add: one_round_def)
qed

text \<open>
  The state used below is the idle one with auto-refresh off, reached by mounting,
  letting the round end, switching auto-refresh off and letting that round end.
\<close>

theorem rounds_in_flight_witness:
  "run unmounted [EffectRuns True, RoundCompletes, EffectRuns False, RoundCompletes] =
     Some \<lparr>loadingFlag = False, intervalSet = False, inFlight = 0\<rparr> \<and>
   one_round \<lparr>loadingFlag = False, intervalSet = False, inFlight = 0\<rparr> \<and>
   list_all manual [RefreshClicked, RoundCompletes, RefreshClicked] \<and>
   run \<lparr>loadingFlag = False, intervalSet = False, inFlight = 0\<rparr>
       [RefreshClicked, RoundCompletes, RefreshClicked] =
     Some \<lparr>loadingFlag = True, intervalSet = False, inFlight = 1\<rparr> \<and>
   run \<lparr>loadingFlag = False, intervalSet = False, inFlight = 0\<rparr>
       [RefreshClicked, RefreshClicked] = None \<and>
   step \<lparr>loadingFlag = True, intervalSet = True, inFlight = 1\<rparr> RefreshClicked = None \<and>
   step \<lparr>loadingFlag = True, intervalSet = True, inFlight = 1\<rparr> IntervalFires =
     Some \<lparr>loadingFlag = True, intervalSet = True, inFlight = 2\<rparr>"
proof -
  let ?idle = "\<lparr>loadingFlag = False, intervalSet = False, inFlight = 0\<rparr>"
  let ?busy = "\<lparr>loadingFlag = True, intervalSet = True, inFlight = 1\<rparr>"
  have reach: "run unmounted [EffectRuns True, RoundCompletes, EffectRuns False, RoundCompletes] =
      Some ?idle"
    by (simp add: unmounted_def startRound_def)
  have o: "one_round ?idle"
    by (simp add: one_round_def)
  have m: "list_all manual [RefreshClicked, RoundCompletes, RefreshClicked]"
    by (simp add: manual_def)
  have r: "run ?idle [RefreshClicked, RoundCompletes, RefreshClicked] =
      Some \<lparr>loadingFlag = True, intervalSet = False, inFlight = 1\<rparr>"
    by (simp add: startRound_def)
  from rounds_in_flight[of ?idle True] o m r
  have "inFlight \<lparr>loadingFlag = True, intervalSet = False, inFlight = 1\<rparr> \<le> 1"
    by blast
  moreover from rounds_in_flight[of ?busy True] have "step ?busy RefreshClicked = None"
    by simp
  moreover have "step ?busy IntervalFires =
      Some \<lparr>loadingFlag = True, intervalSet = True, inFlight = 2\<rparr>"
    by (simp add: startRound_def)
  moreover have "run ?idle [RefreshClicked, RefreshClicked] = None"
    by (simp add: startRound_def)
  ultimately show ?thesis using reach o m r by simp
qed

text \<open>
  C7, as the claim states it, fails: after mounting (auto-refresh is on initially), an
  interval tick that comes before the first round has ended, which no timeout prevents,
  starts a second round while the first is still in flight.
\<close>

theorem interval_starts_second_round:
  "run unmounted [EffectRuns True, IntervalFires] =
     Some \<lparr>loadingFlag = True, intervalSet = True, inFlight = 2\<rparr>"
  by (simp add: unmounted_def startRound_def)

end
